theory Spec2Isabelle
  imports Main
begin

section \<open>JavaScript values and option objects\<close>

text \<open>
  The adapter of \<^verbatim>\<open>src/index.js\<close> tests its inputs with JavaScript truthiness
  (\<^verbatim>\<open>options().exit\<close>, \<^verbatim>\<open>props.exitBeforeEnter ? ...\<close>, \<^verbatim>\<open>props.tag || "div"\<close>)
  and with strict comparison against \<^verbatim>\<open>false\<close> (\<^verbatim>\<open>props.initial !== false\<close>,
  \<^verbatim>\<open>presenceState?.() === false\<close>). Values are therefore kept apart by kind. Objects,
  functions and symbols are known by identity only; numbers are integers (NaN and
  fractions, which no line of the adapter distinguishes beyond truthiness, are left out).
\<close>

datatype jsval =
    JUndefined
  | JNull
  | JBool bool
  | JNum int
  | JStr string
  | JObj nat
  | JSym nat

fun truthy :: "jsval \<Rightarrow> bool" where
  "truthy JUndefined = False"
| "truthy JNull = False"
| "truthy (JBool b) = b"
| "truthy (JNum n) = (n \<noteq> 0)"
| "truthy (JStr s) = (s \<noteq> [])"
| "truthy (JObj _) = True"
| "truthy (JSym _) = True"

text \<open>\<^verbatim>\<open>a || b\<close>: the left operand when it is truthy, the right one otherwise.\<close>

definition js_or :: "jsval \<Rightarrow> jsval \<Rightarrow> jsval" where
  "js_or a b = (if truthy a then a else b)"

text \<open>
  A plain object is its list of own properties in insertion order. Reading a missing
  property gives \<^verbatim>\<open>undefined\<close>; \<^verbatim>\<open>{ ...o, k: v }\<close> overwrites \<open>k\<close> in place or appends it.
\<close>

type_synonym obj = "(string \<times> jsval) list"

definition get_prop :: "obj \<Rightarrow> string \<Rightarrow> jsval" where
  "get_prop ob k = (case map_of ob k of None \<Rightarrow> JUndefined | Some v \<Rightarrow> v)"

fun set_prop :: "obj \<Rightarrow> string \<Rightarrow> jsval \<Rightarrow> obj" where
  "set_prop [] k v = [(k, v)]"
| "set_prop ((k', v') # ps) k v =
     (if k' = k then (k, v) # ps else (k', v') # set_prop ps k v)"

section \<open>The world the adapter acts on\<close>

type_synonym el = nat
type_synonym hid = nat
type_synonym cell = nat
type_synonym cid = nat

text \<open>
  The functions the adapter hands to the DOM as listeners: the unmount procedure that
  \<^verbatim>\<open>state.mount(el)\<close> returned for a handle, and the \<^verbatim>\<open>remove\<close> function the transition
  coordinator passes to \<^verbatim>\<open>onExit\<close> for a child.
\<close>

datatype callback = UnmountFn hid | RemoveFn cid el

text \<open>The trace of calls into the animation engine and the DOM.\<close>

datatype call =
    CreateMotionState hid obj "hid option"
  | StateMount hid el
  | StateUpdate hid obj
  | SetActive hid string bool
  | AddEventListener el string callback
  | Invoke callback

text \<open>
  The reactive sources an options function can read. \<open>ConstFn\<close> is \<^verbatim>\<open>() => options\<close> over
  a static value (line 92), \<open>SignalFn\<close> a producer supplied by the caller that reads a
  reactive cell, \<open>SplitFn\<close> the producer \<^verbatim>\<open>() => ({ ...options })\<close> of \<open>MotionComponent\<close>
  (lines 117-118) over the component's props.
\<close>

datatype props = Plain obj | Reactive cell | Merge props obj

datatype producer = ConstFn obj | SignalFn cell | SplitFn props

text \<open>What a caller may pass as \<^verbatim>\<open>options\<close>: a static value or a function.\<close>

datatype optarg = Value obj | Fn producer

datatype tmode = Parallel | OutIn

text \<open>
  Modelled from the spec: \<^verbatim>\<open>createContext\<close>, the providers and \<^verbatim>\<open>useContext\<close> are imported
  (lines 1-2). A context is the list of the values its providers give, innermost first;
  \<^verbatim>\<open>undefined\<close> is \<open>None\<close>, and so is the default of a context created without one (lines 9
  and 113). Which provider \<^verbatim>\<open>useContext\<close> reads when the innermost one gives \<^verbatim>\<open>undefined\<close>
  is the host runtime's rule and not fixed by the source: either the innermost provider
  decides, or providers of \<^verbatim>\<open>undefined\<close> are skipped and the nearest defined value is
  found. Both rules are kept; the world says which one the runtime follows.
\<close>

datatype runtime = InnermostProvider | SkipsUndefined

fun useContext :: "runtime \<Rightarrow> 'a option list \<Rightarrow> 'a option" where
  "useContext rt [] = None"
| "useContext InnermostProvider (v # st) = v"
| "useContext SkipsUndefined (Some x # st) = Some x"
| "useContext SkipsUndefined (None # st) = useContext SkipsUndefined st"

record handle =
  h_options :: obj
  h_parent :: "hid option"
  h_element :: "el option"

record coord =
  c_mode :: tmode
  c_appear :: bool
  c_current :: "el option"
  c_next :: "el option"
  c_exiting :: bool
  c_returned :: "el list"

record env =
  presenceCtx :: "cell option"
  parentCtx :: "hid option list"

record binding =
  b_el :: el
  b_options :: optarg
  b_presenceState :: "cell option"
  b_state :: hid

record world =
  runtime :: runtime
  vars :: "cell \<Rightarrow> jsval"
  sigs :: "cell \<Rightarrow> obj"
  next_id :: nat
  handles :: "hid \<Rightarrow> handle"
  mountedStates :: "el \<Rightarrow> hid option"
  listeners :: "(el \<times> string \<times> callback \<times> bool) list"
  onMounts :: "binding list"
  cleanups :: "binding list"
  effects :: "(hid \<times> producer) list"
  coords :: "cid \<Rightarrow> coord"
  log :: "call list"

datatype error = TypeError

definition emit :: "call \<Rightarrow> world \<Rightarrow> world" where
  "emit c w = w\<lparr>log := log w @ [c]\<rparr>"

section \<open>The animation engine (\<^verbatim>\<open>@motionone/dom\<close>)\<close>

text \<open>
  Modelled from the spec: the engine is imported (line 3), not part of the source. Its
  interface is the one of section 6 of the specification: \<^verbatim>\<open>createMotionState(options,
  parentState)\<close> gives a new handle, \<^verbatim>\<open>handle.mount(element)\<close> records the handle for the
  element in \<^verbatim>\<open>mountedStates\<close> and gives the unmount procedure, which forgets it again,
  \<^verbatim>\<open>handle.update(options)\<close> replaces the options that \<^verbatim>\<open>getOptions()\<close> reads, and
  \<^verbatim>\<open>handle.setActive(name, bool)\<close> switches a named state. Every call is written to the
  trace.
\<close>

definition createMotionState :: "obj \<Rightarrow> hid option \<Rightarrow> world \<Rightarrow> hid \<times> world" where
  "createMotionState options parentState w =
     (let h = next_id w in
      (h, emit (CreateMotionState h options parentState)
            (w\<lparr>next_id := Suc h,
               handles := (handles w)(h := \<lparr>h_options = options, h_parent = parentState,
                                           h_element = None\<rparr>)\<rparr>)))"

definition state_mount :: "hid \<Rightarrow> el \<Rightarrow> world \<Rightarrow> callback \<times> world" where
  "state_mount h e w =
     (UnmountFn h,
      emit (StateMount h e)
        (w\<lparr>handles := (handles w)(h := (handles w h)\<lparr>h_element := Some e\<rparr>),
           mountedStates := (mountedStates w)(e := Some h)\<rparr>))"

definition state_update :: "hid \<Rightarrow> obj \<Rightarrow> world \<Rightarrow> world" where
  "state_update h options w =
     emit (StateUpdate h options)
       (w\<lparr>handles := (handles w)(h := (handles w h)\<lparr>h_options := options\<rparr>)\<rparr>)"

definition state_setActive :: "hid \<Rightarrow> string \<Rightarrow> bool \<Rightarrow> world \<Rightarrow> world" where
  "state_setActive h name active w = emit (SetActive h name active) w"

definition state_getOptions :: "world \<Rightarrow> hid \<Rightarrow> obj" where
  "state_getOptions w h = h_options (handles w h)"

definition state_unmount :: "hid \<Rightarrow> world \<Rightarrow> world" where
  "state_unmount h w =
     (case h_element (handles w h) of
        None \<Rightarrow> w
      | Some e \<Rightarrow> w\<lparr>mountedStates := (mountedStates w)(e := None)\<rparr>)"

section \<open>The transition coordinator (\<^verbatim>\<open>createSwitchTransition\<close>)\<close>

text \<open>
  Modelled from the spec: \<^verbatim>\<open>createSwitchTransition\<close> is imported from
  \<^verbatim>\<open>@solid-primitives/transition-group\<close> (line 6), not part of the source. Section 4.1 of the
  specification gives its contract: it holds the children it currently returns; when
  the resolved child changes, the previous child is handed to \<^verbatim>\<open>onExit\<close> together with a
  removal callback; in parallel mode the replacement is entered at once, in out-in mode
  it is held back until the removal callback of the previous child has run.
\<close>

definition enterTransition :: "cid \<Rightarrow> world \<Rightarrow> world" where
  "enterTransition k w =
     (let c = coords w k in
      case c_next c of
        None \<Rightarrow> w
      | Some e \<Rightarrow>
          w\<lparr>coords := (coords w)(k := c\<lparr>c_next := None, c_returned := e # c_returned c\<rparr>)\<rparr>)"

definition remove_child :: "cid \<Rightarrow> el \<Rightarrow> world \<Rightarrow> world" where
  "remove_child k e w =
     (let c = coords w k;
          w1 = w\<lparr>coords := (coords w)(k := c\<lparr>c_exiting := False,
                     c_returned := filter (\<lambda>x. x \<noteq> e) (c_returned c)\<rparr>)\<rparr>
      in if c_mode c = OutIn then enterTransition k w1 else w1)"

text \<open>Calling one of the functions the adapter registered or received.\<close>

fun run_callback :: "callback \<Rightarrow> world \<Rightarrow> world" where
  "run_callback (UnmountFn h) w = state_unmount h (emit (Invoke (UnmountFn h)) w)"
| "run_callback (RemoveFn k e) w = remove_child k e (emit (Invoke (RemoveFn k e)) w)"

section \<open>DOM event listeners\<close>

text \<open>
  \<^verbatim>\<open>el.addEventListener(type, fn, { once })\<close>: the listener is appended unless the same
  function is already registered for that element and type. \<^verbatim>\<open>dispatchEvent\<close> calls every
  listener of the element and type in registration order, and drops those registered
  with \<^verbatim>\<open>once\<close>.
\<close>

definition addEventListener :: "el \<Rightarrow> string \<Rightarrow> callback \<Rightarrow> bool \<Rightarrow> world \<Rightarrow> world" where
  "addEventListener e ty fn once w =
     emit (AddEventListener e ty fn)
       (if \<exists>l \<in> set (listeners w). fst l = e \<and> fst (snd l) = ty \<and> fst (snd (snd l)) = fn
        then w
        else w\<lparr>listeners := listeners w @ [(e, ty, fn, once)]\<rparr>)"

definition dispatchEvent :: "el \<Rightarrow> string \<Rightarrow> world \<Rightarrow> world" where
  "dispatchEvent e ty w =
     (let fire = filter (\<lambda>l. fst l = e \<and> fst (snd l) = ty) (listeners w);
          keep = filter (\<lambda>l. \<not> (fst l = e \<and> fst (snd l) = ty \<and> snd (snd (snd l))))
                   (listeners w)
      in fold (\<lambda>l. run_callback (fst (snd (snd l)))) fire (w\<lparr>listeners := keep\<rparr>))"

text \<open>Line 63: \<^verbatim>\<open>const onCompleteExit = (el, fn) => el.addEventListener("motioncomplete", fn)\<close>.
  No options argument is passed, so the listener is not a \<^verbatim>\<open>once\<close> listener.\<close>

definition onCompleteExit :: "el \<Rightarrow> callback \<Rightarrow> world \<Rightarrow> world" where
  "onCompleteExit e fn w = addEventListener e ''motioncomplete'' fn False w"

text \<open>Lines 46-49, the \<^verbatim>\<open>onExit\<close> handler \<open>Presence\<close> gives to the coordinator.\<close>

definition onExit :: "el \<Rightarrow> callback \<Rightarrow> world \<Rightarrow> world" where
  "onExit e remove w =
     (case mountedStates w e of
        None \<Rightarrow> run_callback remove w
      | Some state \<Rightarrow>
          if truthy (get_prop (state_getOptions w state) ''exit'')
          then onCompleteExit e remove w
          else run_callback remove w)"

section \<open>Reactive sources (\<^verbatim>\<open>solid-js\<close>)\<close>

text \<open>
  Modelled from the spec: the reactive runtime is imported (lines 1-2). \<^verbatim>\<open>mergeProps\<close>
  lets a later source override an earlier one wherever the later value is not
  \<^verbatim>\<open>undefined\<close>; \<^verbatim>\<open>splitProps(props, OPTION_KEYS, ATTR_KEYS)\<close> gives as its first part the
  props whose key is an option key.
\<close>

definition OPTION_KEYS :: "string list" where
  "OPTION_KEYS = [''initial'', ''animate'', ''inView'', ''inViewOptions'', ''hover'', ''press'',
     ''variants'', ''transition'', ''exit'']"

definition ATTR_KEYS :: "string list" where
  "ATTR_KEYS = [''tag'', ''ref'', ''style'', ''onMotionStart'', ''onMotionComplete'',
     ''onHoverStart'', ''onHoverEnd'', ''onPressStart'', ''onPressEnd'', ''onViewEnter'',
     ''onViewLeave'']"

definition mergeProps :: "obj \<Rightarrow> obj \<Rightarrow> obj" where
  "mergeProps a b =
     fold (\<lambda>kv acc. if snd kv = JUndefined then acc else set_prop acc (fst kv) (snd kv)) b a"

fun read_props :: "world \<Rightarrow> props \<Rightarrow> obj" where
  "read_props w (Plain ob) = ob"
| "read_props w (Reactive c) = sigs w c"
| "read_props w (Merge p ob) = mergeProps (read_props w p) ob"

fun props_reads :: "props \<Rightarrow> cell \<Rightarrow> bool" where
  "props_reads (Plain ob) c = False"
| "props_reads (Reactive c') c = (c' = c)"
| "props_reads (Merge p ob) c = props_reads p c"

fun call_producer :: "world \<Rightarrow> producer \<Rightarrow> obj" where
  "call_producer w (ConstFn ob) = ob"
| "call_producer w (SignalFn c) = sigs w c"
| "call_producer w (SplitFn p) = filter (\<lambda>kv. fst kv \<in> set OPTION_KEYS) (read_props w p)"

fun producer_reads :: "producer \<Rightarrow> cell \<Rightarrow> bool" where
  "producer_reads (ConstFn ob) c = False"
| "producer_reads (SignalFn c') c = (c' = c)"
| "producer_reads (SplitFn p) c = props_reads p c"

fun isFunction :: "optarg \<Rightarrow> bool" where
  "isFunction (Value v) = False"
| "isFunction (Fn p) = True"

text \<open>\<^verbatim>\<open>options()\<close>: calling a value that is not a function throws.\<close>

fun call_options :: "world \<Rightarrow> optarg \<Rightarrow> error + obj" where
  "call_options w (Value v) = Inl TypeError"
| "call_options w (Fn p) = Inr (call_producer w p)"

text \<open>
  \<^verbatim>\<open>createEffect(() => state.update(options()))\<close>: the runtime keeps the computation and
  runs it once; it runs it again whenever a cell the producer reads changes.
\<close>

definition run_effect :: "hid \<times> producer \<Rightarrow> world \<Rightarrow> world" where
  "run_effect ef w = state_update (fst ef) (call_producer w (snd ef)) w"

definition createEffect :: "hid \<times> producer \<Rightarrow> world \<Rightarrow> world" where
  "createEffect ef w = run_effect ef (w\<lparr>effects := effects w @ [ef]\<rparr>)"

definition set_signal :: "cell \<Rightarrow> obj \<Rightarrow> world \<Rightarrow> world" where
  "set_signal c v w =
     fold run_effect (filter (\<lambda>ef. producer_reads (snd ef) c) (effects w))
       (w\<lparr>sigs := (sigs w)(c := v)\<rparr>)"

section \<open>The per-element state binding\<close>

text \<open>
  Lines 66-81, \<^verbatim>\<open>createAndBindMotionState(el, options, presenceState, parentState)\<close>. The
  call constructs the handle (lines 67-69) and registers the mount callback with the
  runtime (line 70). The computed styles of line 80 take no part in the lifecycle and
  are left out.
\<close>

definition presence_read :: "world \<Rightarrow> cell option \<Rightarrow> jsval" where
  "presence_read w presenceState =
     (case presenceState of None \<Rightarrow> JUndefined | Some c \<Rightarrow> vars w c)"

definition createAndBindMotionState ::
  "el \<Rightarrow> optarg \<Rightarrow> cell option \<Rightarrow> hid option \<Rightarrow> world \<Rightarrow> error + binding \<times> world" where
  "createAndBindMotionState e options presenceState parentState w =
     (case call_options w options of
        Inl err \<Rightarrow> Inl err
      | Inr ob \<Rightarrow>
          (let (state, w1) =
                 createMotionState
                   (if presence_read w presenceState = JBool False
                    then set_prop ob ''initial'' (JBool False) else ob)
                   parentState w;
               b = \<lparr>b_el = e, b_options = options, b_presenceState = presenceState,
                    b_state = state\<rparr>
           in Inr (b, w1\<lparr>onMounts := onMounts w1 @ [b]\<rparr>)))"

text \<open>Lines 72-77, the cleanup registered by the mount callback.\<close>

definition createAndBindMotionState_onCleanup :: "binding \<Rightarrow> world \<Rightarrow> error + world" where
  "createAndBindMotionState_onCleanup b w =
     (let unmount = UnmountFn (b_state b) in
      case b_presenceState b of
        None \<Rightarrow> Inr (run_callback unmount w)
      | Some _ \<Rightarrow>
          (case call_options w (b_options b) of
             Inl err \<Rightarrow> Inl err
           | Inr ob \<Rightarrow>
               if truthy (get_prop ob ''exit'')
               then Inr (onCompleteExit (b_el b) unmount
                           (state_setActive (b_state b) ''exit'' True w))
               else Inr (run_callback unmount w)))"

text \<open>Lines 70-79, the mount callback. The test \<^verbatim>\<open>isFunction(options)\<close> of line 78 is the
  case distinction on the options argument.\<close>

definition createAndBindMotionState_onMount :: "binding \<Rightarrow> world \<Rightarrow> world" where
  "createAndBindMotionState_onMount b w =
     (let (unmount, w1) = state_mount (b_state b) (b_el b) w;
          w2 = w1\<lparr>cleanups := cleanups w1 @ [b]\<rparr>
      in case b_options b of
           Value _ \<Rightarrow> w2
         | Fn p \<Rightarrow> createEffect (b_state b, p) w2)"

text \<open>Lines 91-99, \<^verbatim>\<open>createMotion(target, options, presenceState)\<close>; the style loop of lines
  94-96 is left out.\<close>

definition createMotion :: "el \<Rightarrow> optarg \<Rightarrow> cell option \<Rightarrow> world \<Rightarrow> error + hid \<times> world" where
  "createMotion target options presenceState w =
     (case createAndBindMotionState target
             (case options of Fn p \<Rightarrow> Fn p | Value v \<Rightarrow> Fn (ConstFn v))
             presenceState None w of
        Inl err \<Rightarrow> Inl err
      | Inr (b, w1) \<Rightarrow> Inr (b_state b, w1))"

text \<open>Lines 107-109, the directive \<^verbatim>\<open>motion(el, props)\<close>; \<^verbatim>\<open>useContext(PresenceContext)\<close> reads
  the ambient presence flag.\<close>

definition motion :: "el \<Rightarrow> optarg \<Rightarrow> env \<Rightarrow> world \<Rightarrow> error + world" where
  "motion e props ev w =
     (case createMotion e props (presenceCtx ev) w of
        Inl err \<Rightarrow> Inl err
      | Inr (state, w1) \<Rightarrow> Inr w1)"

text \<open>
  Lines 116-175, \<open>MotionComponent\<close>: the binding is constructed with the ambient
  presence flag and with \<^verbatim>\<open>useContext(ParentContext)\<close> as the parent handle (line 119); the
  children are created below a provider of this component's handle (lines 121-122).
  Line 132 names what is rendered.
\<close>

definition MotionComponent :: "env \<Rightarrow> props \<Rightarrow> el \<Rightarrow> world \<Rightarrow> error + hid \<times> env \<times> world" where
  "MotionComponent ev props root w =
     (case createAndBindMotionState root (Fn (SplitFn props)) (presenceCtx ev)
             (useContext (runtime w) (parentCtx ev)) w of
        Inl err \<Rightarrow> Inl err
      | Inr (b, w1) \<Rightarrow> Inr (b_state b, ev\<lparr>parentCtx := Some (b_state b) # parentCtx ev\<rparr>, w1))"

definition MotionComponent_component :: "world \<Rightarrow> props \<Rightarrow> jsval" where
  "MotionComponent_component w props =
     js_or (get_prop (read_props w props) ''tag'') (JStr ''div'')"

section \<open>Presence\<close>

text \<open>Line 32: \<^verbatim>\<open>let initial = props.initial !== false\<close>.\<close>

definition Presence_initial :: "obj \<Rightarrow> bool" where
  "Presence_initial props = (get_prop props ''initial'' \<noteq> JBool False)"

text \<open>Line 44: \<^verbatim>\<open>mode: props.exitBeforeEnter ? "out-in" : "parallel"\<close>.\<close>

definition Presence_mode :: "obj \<Rightarrow> tmode" where
  "Presence_mode props =
     (if truthy (get_prop props ''exitBeforeEnter'') then OutIn else Parallel)"

text \<open>
  Modelled from the spec: what \<^verbatim>\<open>createSwitchTransition(source, { appear, mode, onExit })\<close>
  (lines 42-51) sets up and does when its source changes. The coordinator starts with
  the first resolved child as its returned child. When the source gives another child,
  the previous one is handed to the \<^verbatim>\<open>onExit\<close> handler of lines 46-49 with its removal
  callback. In parallel mode the new child is entered in the same step; in out-in mode
  it waits as \<open>c_next\<close> until the removal callback runs, and a change that arrives while
  an exit is pending only replaces the waiting child.
\<close>

definition createSwitchTransition :: "el option \<Rightarrow> bool \<Rightarrow> tmode \<Rightarrow> world \<Rightarrow> cid \<times> world" where
  "createSwitchTransition source appear mode w =
     (let k = next_id w in
      (k, w\<lparr>next_id := Suc k,
            coords := (coords w)(k := \<lparr>c_mode = mode, c_appear = appear, c_current = source,
                        c_next = None, c_exiting = False,
                        c_returned = (case source of None \<Rightarrow> [] | Some e \<Rightarrow> [e])\<rparr>)\<rparr>))"

definition exitTransition :: "cid \<Rightarrow> el option \<Rightarrow> world \<Rightarrow> world" where
  "exitTransition k prev w =
     (case prev of
        None \<Rightarrow> if c_mode (coords w k) = OutIn then enterTransition k w else w
      | Some e \<Rightarrow>
          onExit e (RemoveFn k e)
            (w\<lparr>coords := (coords w)(k := (coords w k)\<lparr>c_exiting := True\<rparr>)\<rparr>))"

definition source_changed :: "cid \<Rightarrow> el option \<Rightarrow> world \<Rightarrow> world" where
  "source_changed k new w =
     (let c = coords w k in
      if new = c_current c then w
      else
        (let w1 = w\<lparr>coords := (coords w)(k := c\<lparr>c_current := new, c_next := new\<rparr>)\<rparr> in
         case c_mode c of
           OutIn \<Rightarrow> if c_exiting c then w1 else exitTransition k (c_current c) w1
         | Parallel \<Rightarrow> enterTransition k (exitTransition k (c_current c) w1)))"

section \<open>Component trees and the host runtime\<close>

text \<open>
  A tree of the components this library exports, as the host runtime would create
  them: \<open>MotionC\<close> is \<open>MotionComponent\<close> with its props, root element and children,
  \<open>PresenceC\<close> is \<open>Presence\<close> with its props and children, \<open>DirectiveC\<close> an element that
  carries the \<^verbatim>\<open>motion\<close> directive, \<open>ElemC\<close> any other element.
\<close>

datatype comp =
    MotionC props el "comp list"
  | PresenceC obj "comp list"
  | DirectiveC el optarg
  | ElemC el "comp list"

text \<open>Lines 203-207: \<^verbatim>\<open>Motion[tag]\<close> is the component
  \<^verbatim>\<open>props => createComponent(MotionComponent, mergeProps(props, { tag }))\<close>. A property key is
  a string or a symbol.\<close>

datatype propkey = KStr string | KSym nat

fun key_val :: "propkey \<Rightarrow> jsval" where
  "key_val (KStr s) = JStr s"
| "key_val (KSym n) = JSym n"

definition Motion :: "propkey \<Rightarrow> props \<Rightarrow> el \<Rightarrow> comp list \<Rightarrow> comp" where
  "Motion tag props root kids = MotionC (Merge props [(''tag'', key_val tag)]) root kids"

text \<open>\<^verbatim>\<open>resolveFirst(() => props.children)\<close>: the first child that is an element.\<close>

fun resolveFirst :: "comp list \<Rightarrow> el option" where
  "resolveFirst [] = None"
| "resolveFirst (MotionC p e ks # cs) = Some e"
| "resolveFirst (DirectiveC e p # cs) = Some e"
| "resolveFirst (ElemC e ks # cs) = Some e"
| "resolveFirst (PresenceC p ks # cs) =
     (case resolveFirst ks of Some e \<Rightarrow> Some e | None \<Rightarrow> resolveFirst cs)"

text \<open>
  Creating a tree. The clause for \<open>PresenceC\<close> is \<open>Presence\<close>, lines 31-61: a fresh variable
  \<open>initial\<close> is set from the props (line 32); the children are created below a provider
  of the accessor of this variable for the presence context (lines 34-35) and a
  provider of \<^verbatim>\<open>undefined\<close> for the parent context (lines 38-39); the coordinator is set up
  with \<^verbatim>\<open>appear: initial\<close> and the mode of line 44 (lines 42-51); then the variable is set
  to \<^verbatim>\<open>true\<close> (line 59). The environment carries what the providers above a component
  give. The only provider of the presence context in the source gives a function, so
  under either lookup rule the innermost one is read and the environment keeps just
  that value; for the parent context it keeps the whole list, and what a component
  reads from it is the runtime's \<open>useContext\<close>.
\<close>

fun render :: "env \<Rightarrow> comp \<Rightarrow> world \<Rightarrow> error + world"
  and render_list :: "env \<Rightarrow> comp list \<Rightarrow> world \<Rightarrow> error + world" where
  "render ev (MotionC props root kids) w =
     (case MotionComponent ev props root w of
        Inl err \<Rightarrow> Inl err
      | Inr (state, ev', w1) \<Rightarrow> render_list ev' kids w1)"
| "render ev (DirectiveC e props) w = motion e props ev w"
| "render ev (ElemC e kids) w = render_list ev kids w"
| "render ev (PresenceC props kids) w =
     (let initial = next_id w;
          w1 = w\<lparr>vars := (vars w)(initial := JBool (Presence_initial props)),
                 next_id := Suc initial\<rparr>
      in case render_list (ev\<lparr>presenceCtx := Some initial, parentCtx := None # parentCtx ev\<rparr>)
                kids w1 of
           Inl err \<Rightarrow> Inl err
         | Inr w2 \<Rightarrow>
             (let (k, w3) = createSwitchTransition (resolveFirst kids)
                              (truthy (vars w2 initial)) (Presence_mode props) w2
              in Inr (w3\<lparr>vars := (vars w3)(initial := JBool True)\<rparr>)))"
| "render_list ev [] w = Inr w"
| "render_list ev (c # cs) w =
     (case render ev c w of
        Inl err \<Rightarrow> Inl err
      | Inr w1 \<Rightarrow> render_list ev cs w1)"

text \<open>
  What the host runtime and the environment do afterwards: run the registered mount
  callbacks, change a reactive cell, dispose a binding's owner (which runs its cleanup
  and drops its computations), dispatch a DOM event, give the coordinator another
  child, or create further components.
\<close>

definition run_onMounts :: "world \<Rightarrow> world" where
  "run_onMounts w = fold createAndBindMotionState_onMount (onMounts w) (w\<lparr>onMounts := []\<rparr>)"

definition dispose :: "binding \<Rightarrow> world \<Rightarrow> error + world" where
  "dispose b w =
     (let w1 = w\<lparr>onMounts := removeAll b (onMounts w),
                 effects := filter (\<lambda>ef. fst ef \<noteq> b_state b) (effects w)\<rparr>
      in if b \<in> set (cleanups w)
         then createAndBindMotionState_onCleanup b (w1\<lparr>cleanups := removeAll b (cleanups w)\<rparr>)
         else Inr w1)"

datatype event =
    Render env comp
  | RunMounts
  | SetSignal cell obj
  | Dispose binding
  | Dispatch el string
  | SourceChanged cid "el option"

fun step :: "event \<Rightarrow> world \<Rightarrow> error + world" where
  "step (Render ev c) w = render ev c w"
| "step RunMounts w = Inr (run_onMounts w)"
| "step (SetSignal c v) w = Inr (set_signal c v w)"
| "step (Dispose b) w = dispose b w"
| "step (Dispatch e ty) w = Inr (dispatchEvent e ty w)"
| "step (SourceChanged k new) w = Inr (source_changed k new w)"

fun run :: "event list \<Rightarrow> world \<Rightarrow> error + world" where
  "run [] w = Inr w"
| "run (ev # evs) w = (case step ev w of Inl err \<Rightarrow> Inl err | Inr w1 \<Rightarrow> run evs w1)"

text \<open>The world before anything was created, in a runtime where the innermost provider
  decides.\<close>

definition world0 :: world where
  "world0 = \<lparr>runtime = InnermostProvider, vars = (\<lambda>c. JUndefined), sigs = (\<lambda>c. []), next_id = 0,
     handles = (\<lambda>h. \<lparr>h_options = [], h_parent = None, h_element = None\<rparr>),
     mountedStates = (\<lambda>e. None), listeners = [], onMounts = [], cleanups = [], effects = [],
     coords = (\<lambda>k. \<lparr>c_mode = Parallel, c_appear = True, c_current = None, c_next = None,
                    c_exiting = False, c_returned = []\<rparr>),
     log = []\<rparr>"

section \<open>The constructor calls of a tree\<close>

text \<open>
  The calls of \<^verbatim>\<open>createMotionState\<close> that creating a tree is to make, read off the tree
  alone, in the words of the specification: every \<open>MotionComponent\<close> and every directive
  constructs one handle; the options are the result of its options function, with
  \<^verbatim>\<open>initial\<close> forced to \<^verbatim>\<open>false\<close> exactly when the presence flag it sees reads \<^verbatim>\<open>false\<close>; a
  \<open>Presence\<close> lets everything below it see a flag that reads \<^verbatim>\<open>props.initial !== false\<close>
  during this first creation; a \<open>MotionComponent\<close> passes as parent what \<open>useContext\<close>
  reads from the providers above it, which are the \<open>MotionComponent\<close>s (each giving its
  handle) and the \<open>Presence\<close>s (each giving \<^verbatim>\<open>undefined\<close>) on the way up; a directive
  passes no parent. \<open>ids_used\<close> counts the fresh identities a tree takes: one per
  handle, and for a \<open>Presence\<close> one for its flag and one for its coordinator.
\<close>

fun ids_used :: "comp \<Rightarrow> nat"
  and ids_used_list :: "comp list \<Rightarrow> nat" where
  "ids_used (MotionC p root kids) = Suc (ids_used_list kids)"
| "ids_used (DirectiveC e oa) = 1"
| "ids_used (ElemC e kids) = ids_used_list kids"
| "ids_used (PresenceC ps kids) = Suc (Suc (ids_used_list kids))"
| "ids_used_list [] = 0"
| "ids_used_list (c # cs) = ids_used c + ids_used_list cs"

definition first_options :: "jsval \<Rightarrow> obj \<Rightarrow> obj" where
  "first_options flag ob =
     (if flag = JBool False then set_prop ob ''initial'' (JBool False) else ob)"


section \<open>Observations on the trace and sample inputs\<close>

text \<open>How often a function handed to the DOM or the coordinator was called, how often
  \<^verbatim>\<open>update\<close> was called on a handle, and with which options, according to the trace.\<close>

definition invoked :: "callback \<Rightarrow> world \<Rightarrow> nat" where
  "invoked fn w = count_list (log w) (Invoke fn)"

definition update_calls :: "hid \<Rightarrow> world \<Rightarrow> nat" where
  "update_calls h w =
     length (filter (\<lambda>c. case c of StateUpdate h' ob \<Rightarrow> h' = h | _ \<Rightarrow> False) (log w))"

definition update_args :: "hid \<Rightarrow> world \<Rightarrow> obj list" where
  "update_args h w =
     concat (map (\<lambda>c. case c of StateUpdate h' ob \<Rightarrow> if h' = h then [ob] else [] | _ \<Rightarrow> [])
                 (log w))"

text \<open>
  Concrete inputs for the examples below: a \<^verbatim>\<open><Motion.div>\<close> with an initial and an exit
  target whose root is element 5; the world after a \<open>Presence\<close> with given props and this
  one child was created and mounted (flag cell 0, handle 1, coordinator 2); and a
  binding over element 5 with handle 1 and static options.
\<close>

definition sample_child :: comp where
  "sample_child = Motion (KStr ''div'') (Plain [(''initial'', JObj 2), (''exit'', JObj 1)]) 5 []"

definition sample_world :: "obj \<Rightarrow> world" where
  "sample_world props =
     (case run [Render \<lparr>presenceCtx = None, parentCtx = []\<rparr> (PresenceC props [sample_child]),
                RunMounts] world0 of
        Inl err \<Rightarrow> world0
      | Inr w \<Rightarrow> w)"

definition sample_binding :: "obj \<Rightarrow> cell option \<Rightarrow> binding" where
  "sample_binding ob ps = \<lparr>b_el = 5, b_options = Fn (ConstFn ob), b_presenceState = ps, b_state = 1\<rparr>"


definition swap_world :: world where
  "swap_world =
     (case run [Render \<lparr>presenceCtx = None, parentCtx = []\<rparr>
                  (PresenceC [(''exitBeforeEnter'', JBool True)] [sample_child]),
                RunMounts,
                Render \<lparr>presenceCtx = Some 0, parentCtx = [None]\<rparr>
                  (Motion (KStr ''div'') (Plain [(''initial'', JObj 2)]) 6 []),
                Dispose \<lparr>b_el = 5,
                         b_options = Fn (SplitFn (Merge (Plain [(''initial'', JObj 2), (''exit'', JObj 1)])
                                                    [(''tag'', JStr ''div'')])),
                         b_presenceState = Some 0, b_state = 1\<rparr>,
                SourceChanged 2 (Some 6)] world0 of
        Inl err \<Rightarrow> world0
      | Inr w \<Rightarrow> w)"

definition replacement_binding :: binding where
  "replacement_binding =
     \<lparr>b_el = 6,
      b_options = Fn (SplitFn (Merge (Plain [(''initial'', JObj 2)]) [(''tag'', JStr ''div'')])),
      b_presenceState = Some 0, b_state = 3\<rparr>"

section \<open>Supporting facts\<close>

subsection \<open>Objects\<close>

lemma get_prop_set_prop_same: "get_prop (set_prop ob k v) k = v"
  by (induction ob) (auto simp: get_prop_def)

lemma get_prop_set_prop_other: "k' \<noteq> k \<Longrightarrow> get_prop (set_prop ob k v) k' = get_prop ob k'"
  by (induction ob) (auto simp: get_prop_def)

subsection \<open>Callbacks, listeners and dispatch\<close>

lemma log_emit [simp]: "log (emit c w) = log w @ [c]"
  by (simp add: emit_def)

lemma emit_fields [simp]:
  "runtime (emit c w) = runtime w" "vars (emit c w) = vars w" "sigs (emit c w) = sigs w" "next_id (emit c w) = next_id w"
  "handles (emit c w) = handles w" "mountedStates (emit c w) = mountedStates w"
  "listeners (emit c w) = listeners w" "onMounts (emit c w) = onMounts w"
  "cleanups (emit c w) = cleanups w" "effects (emit c w) = effects w"
  "coords (emit c w) = coords w"
  by (simp_all add: emit_def)

lemma state_unmount_fields [simp]:
  "vars (state_unmount h w) = vars w" "sigs (state_unmount h w) = sigs w"
  "next_id (state_unmount h w) = next_id w" "handles (state_unmount h w) = handles w"
  "listeners (state_unmount h w) = listeners w" "onMounts (state_unmount h w) = onMounts w"
  "cleanups (state_unmount h w) = cleanups w" "effects (state_unmount h w) = effects w"
  "coords (state_unmount h w) = coords w" "log (state_unmount h w) = log w"
  by (simp_all add: state_unmount_def split: option.splits)

lemma enterTransition_fields [simp]:
  "vars (enterTransition k w) = vars w" "sigs (enterTransition k w) = sigs w"
  "next_id (enterTransition k w) = next_id w" "handles (enterTransition k w) = handles w"
  "mountedStates (enterTransition k w) = mountedStates w"
  "listeners (enterTransition k w) = listeners w" "onMounts (enterTransition k w) = onMounts w"
  "cleanups (enterTransition k w) = cleanups w" "effects (enterTransition k w) = effects w"
  "log (enterTransition k w) = log w"
  by (simp_all add: enterTransition_def Let_def split: option.splits)

lemma remove_child_fields [simp]:
  "vars (remove_child k e w) = vars w" "sigs (remove_child k e w) = sigs w"
  "next_id (remove_child k e w) = next_id w" "handles (remove_child k e w) = handles w"
  "mountedStates (remove_child k e w) = mountedStates w"
  "listeners (remove_child k e w) = listeners w" "onMounts (remove_child k e w) = onMounts w"
  "cleanups (remove_child k e w) = cleanups w" "effects (remove_child k e w) = effects w"
  "log (remove_child k e w) = log w"
  by (simp_all add: remove_child_def Let_def)

lemma run_callback_fields [simp]:
  "vars (run_callback cb w) = vars w" "sigs (run_callback cb w) = sigs w"
  "next_id (run_callback cb w) = next_id w" "handles (run_callback cb w) = handles w"
  "listeners (run_callback cb w) = listeners w" "onMounts (run_callback cb w) = onMounts w"
  "cleanups (run_callback cb w) = cleanups w" "effects (run_callback cb w) = effects w"
  "log (run_callback cb w) = log w @ [Invoke cb]"
  by (cases cb; simp)+

lemma fold_run_callback_log:
  "log (fold (\<lambda>l. run_callback (f l)) ls w) = log w @ map (\<lambda>l. Invoke (f l)) ls"
  by (induction ls arbitrary: w) simp_all

lemma fold_run_callback_fields [simp]:
  "vars (fold (\<lambda>l. run_callback (f l)) ls w) = vars w"
  "next_id (fold (\<lambda>l. run_callback (f l)) ls w) = next_id w"
  "handles (fold (\<lambda>l. run_callback (f l)) ls w) = handles w"
  "listeners (fold (\<lambda>l. run_callback (f l)) ls w) = listeners w"
  "sigs (fold (\<lambda>l. run_callback (f l)) ls w) = sigs w"
  "onMounts (fold (\<lambda>l. run_callback (f l)) ls w) = onMounts w"
  "cleanups (fold (\<lambda>l. run_callback (f l)) ls w) = cleanups w"
  "effects (fold (\<lambda>l. run_callback (f l)) ls w) = effects w"
  by (induction ls arbitrary: w; simp)+

lemma dispatchEvent_log:
  "log (dispatchEvent e ty w) =
     log w @ map (\<lambda>l. Invoke (fst (snd (snd l))))
               (filter (\<lambda>l. fst l = e \<and> fst (snd l) = ty) (listeners w))"
  by (simp add: dispatchEvent_def Let_def fold_run_callback_log)

lemma dispatchEvent_listeners:
  "listeners (dispatchEvent e ty w) =
     filter (\<lambda>l. \<not> (fst l = e \<and> fst (snd l) = ty \<and> snd (snd (snd l)))) (listeners w)"
  by (simp add: dispatchEvent_def Let_def)

lemma dispatchEvent_fields [simp]:
  "vars (dispatchEvent e ty w) = vars w" "next_id (dispatchEvent e ty w) = next_id w"
  "handles (dispatchEvent e ty w) = handles w" "sigs (dispatchEvent e ty w) = sigs w"
  "onMounts (dispatchEvent e ty w) = onMounts w" "cleanups (dispatchEvent e ty w) = cleanups w"
  "effects (dispatchEvent e ty w) = effects w"
  by (simp_all add: dispatchEvent_def Let_def)

lemma addEventListener_log [simp]:
  "log (addEventListener e ty fn once w) = log w @ [AddEventListener e ty fn]"
  by (simp add: addEventListener_def)

lemma addEventListener_fields [simp]:
  "vars (addEventListener e ty fn once w) = vars w"
  "sigs (addEventListener e ty fn once w) = sigs w"
  "next_id (addEventListener e ty fn once w) = next_id w"
  "handles (addEventListener e ty fn once w) = handles w"
  "mountedStates (addEventListener e ty fn once w) = mountedStates w"
  "onMounts (addEventListener e ty fn once w) = onMounts w"
  "cleanups (addEventListener e ty fn once w) = cleanups w"
  "effects (addEventListener e ty fn once w) = effects w"
  "coords (addEventListener e ty fn once w) = coords w"
  by (simp_all add: addEventListener_def)

lemma addEventListener_registered:
  "\<exists>once'. (e, ty, fn, once') \<in> set (listeners (addEventListener e ty fn once w))"
  by (fastforce simp: addEventListener_def)

lemma call_producer_cong: "sigs w' = sigs w \<Longrightarrow> call_producer w' p = call_producer w p"
proof (cases p)
  case (SplitFn ps)
  assume s: "sigs w' = sigs w"
  have "read_props w' q = read_props w q" for q
    by (induction q) (simp_all add: s)
  with SplitFn show ?thesis by simp
qed simp_all

lemma onCompleteExit_log [simp]:
  "log (onCompleteExit e fn w) = log w @ [AddEventListener e ''motioncomplete'' fn]"
  by (simp add: onCompleteExit_def)

lemma onCompleteExit_fields [simp]:
  "vars (onCompleteExit e fn w) = vars w" "sigs (onCompleteExit e fn w) = sigs w"
  "next_id (onCompleteExit e fn w) = next_id w" "handles (onCompleteExit e fn w) = handles w"
  "mountedStates (onCompleteExit e fn w) = mountedStates w"
  "coords (onCompleteExit e fn w) = coords w"
  "onMounts (onCompleteExit e fn w) = onMounts w" "cleanups (onCompleteExit e fn w) = cleanups w"
  "effects (onCompleteExit e fn w) = effects w"
  by (simp_all add: onCompleteExit_def)

lemma registered_fires:
  assumes "(e, ty, fn, once') \<in> set (listeners w)"
  shows "Invoke fn \<in> set (map (\<lambda>l. Invoke (fst (snd (snd l))))
           (filter (\<lambda>l. fst l = e \<and> fst (snd l) = ty) (listeners w)))"
proof -
  have "(e, ty, fn, once') \<in> set (filter (\<lambda>l. fst l = e \<and> fst (snd l) = ty) (listeners w))"
    using assms by simp
  then have "Invoke (fst (snd (snd (e, ty, fn, once')))) \<in>
      (\<lambda>l. Invoke (fst (snd (snd l)))) ` set (filter (\<lambda>l. fst l = e \<and> fst (snd l) = ty) (listeners w))"
    by (rule imageI)
  then show ?thesis by simp
qed

lemma addEventListener_fires:
  "\<exists>calls. log (dispatchEvent e ty (addEventListener e ty fn once w)) =
            log (addEventListener e ty fn once w) @ calls \<and> Invoke fn \<in> set calls"
proof -
  obtain once' where "(e, ty, fn, once') \<in> set (listeners (addEventListener e ty fn once w))"
    using addEventListener_registered [of e ty fn once w] by blast
  from registered_fires [OF this] dispatchEvent_log [of e ty "addEventListener e ty fn once w"]
  show ?thesis by blast
qed

lemma onCompleteExit_fires:
  "\<exists>calls. log (dispatchEvent e ''motioncomplete'' (onCompleteExit e fn w)) =
            log (onCompleteExit e fn w) @ calls \<and> Invoke fn \<in> set calls"
  unfolding onCompleteExit_def by (rule addEventListener_fires)

subsection \<open>The engine, construction and mount\<close>

lemma createMotionState_simps [simp]:
  "fst (createMotionState ob parent w) = next_id w"
  "log (snd (createMotionState ob parent w)) = log w @ [CreateMotionState (next_id w) ob parent]"
  "handles (snd (createMotionState ob parent w)) (next_id w) =
     \<lparr>h_options = ob, h_parent = parent, h_element = None\<rparr>"
  "vars (snd (createMotionState ob parent w)) = vars w"
  "runtime (snd (createMotionState ob parent w)) = runtime w"
  "sigs (snd (createMotionState ob parent w)) = sigs w"
  "next_id (snd (createMotionState ob parent w)) = Suc (next_id w)"
  "onMounts (snd (createMotionState ob parent w)) = onMounts w"
  "listeners (snd (createMotionState ob parent w)) = listeners w"
  "effects (snd (createMotionState ob parent w)) = effects w"
  "cleanups (snd (createMotionState ob parent w)) = cleanups w"
  "mountedStates (snd (createMotionState ob parent w)) = mountedStates w"
  "coords (snd (createMotionState ob parent w)) = coords w"
  by (simp_all add: createMotionState_def Let_def)

lemma createAndBindMotionState_Fn:
  "createAndBindMotionState e (Fn p) presenceState parentState w =
     Inr (\<lparr>b_el = e, b_options = Fn p, b_presenceState = presenceState, b_state = next_id w\<rparr>,
          (snd (createMotionState
                 (if presence_read w presenceState = JBool False
                  then set_prop (call_producer w p) ''initial'' (JBool False)
                  else call_producer w p) parentState w))
          \<lparr>onMounts := onMounts w @
             [\<lparr>b_el = e, b_options = Fn p, b_presenceState = presenceState, b_state = next_id w\<rparr>]\<rparr>)"
  by (simp add: createAndBindMotionState_def Let_def split_beta)

lemma state_update_simps [simp]:
  "log (state_update h ob w) = log w @ [StateUpdate h ob]"
  "handles (state_update h ob w) h = (handles w h)\<lparr>h_options := ob\<rparr>"
  "vars (state_update h ob w) = vars w" "sigs (state_update h ob w) = sigs w"
  "next_id (state_update h ob w) = next_id w" "effects (state_update h ob w) = effects w"
  "listeners (state_update h ob w) = listeners w" "onMounts (state_update h ob w) = onMounts w"
  "cleanups (state_update h ob w) = cleanups w"
  "mountedStates (state_update h ob w) = mountedStates w"
  "coords (state_update h ob w) = coords w"
  by (simp_all add: state_update_def)

lemma run_effect_simps [simp]:
  "log (run_effect (h, p) w) = log w @ [StateUpdate h (call_producer w p)]"
  "state_getOptions (run_effect (h, p) w) h = call_producer w p"
  "vars (run_effect ef w) = vars w" "sigs (run_effect ef w) = sigs w"
  "next_id (run_effect ef w) = next_id w" "effects (run_effect ef w) = effects w"
  "listeners (run_effect ef w) = listeners w" "onMounts (run_effect ef w) = onMounts w"
  "cleanups (run_effect ef w) = cleanups w"
  "mountedStates (run_effect ef w) = mountedStates w"
  "coords (run_effect ef w) = coords w"
  by (simp_all add: run_effect_def state_getOptions_def)

lemma state_mount_simps [simp]:
  "fst (state_mount h e w) = UnmountFn h"
  "log (snd (state_mount h e w)) = log w @ [StateMount h e]"
  "vars (snd (state_mount h e w)) = vars w" "sigs (snd (state_mount h e w)) = sigs w"
  "next_id (snd (state_mount h e w)) = next_id w"
  "effects (snd (state_mount h e w)) = effects w"
  "listeners (snd (state_mount h e w)) = listeners w"
  "onMounts (snd (state_mount h e w)) = onMounts w"
  "cleanups (snd (state_mount h e w)) = cleanups w"
  "coords (snd (state_mount h e w)) = coords w"
  "mountedStates (snd (state_mount h e w)) = (mountedStates w)(e := Some h)"
  by (simp_all add: state_mount_def)

lemma onMount_Fn:
  assumes "b_options b = Fn p"
  shows "log (createAndBindMotionState_onMount b w) =
           log w @ [StateMount (b_state b) (b_el b), StateUpdate (b_state b) (call_producer w p)]"
    and "effects (createAndBindMotionState_onMount b w) = effects w @ [(b_state b, p)]"
    and "cleanups (createAndBindMotionState_onMount b w) = cleanups w @ [b]"
    and "vars (createAndBindMotionState_onMount b w) = vars w"
    and "sigs (createAndBindMotionState_onMount b w) = sigs w"
    and "next_id (createAndBindMotionState_onMount b w) = next_id w"
    and "listeners (createAndBindMotionState_onMount b w) = listeners w"
proof -
  have c: "call_producer (snd (state_mount (b_state b) (b_el b) w)
             \<lparr>cleanups := cleanups w @ [b], effects := effects w @ [(b_state b, p)]\<rparr>) p
           = call_producer w p"
    by (rule call_producer_cong) simp
  show "log (createAndBindMotionState_onMount b w) =
           log w @ [StateMount (b_state b) (b_el b), StateUpdate (b_state b) (call_producer w p)]"
    using assms c
    by (simp add: createAndBindMotionState_onMount_def Let_def split_beta createEffect_def)
qed (simp_all add: assms createAndBindMotionState_onMount_def Let_def split_beta createEffect_def)

subsection \<open>Counting the calls of a listener\<close>

lemma count_invoke_map:
  "count_list (map (\<lambda>l. Invoke (f l)) ls) (Invoke fn) = length (filter (\<lambda>l. f l = fn) ls)"
  by (induction ls) simp_all

lemma invoked_dispatchEvent:
  "invoked fn (dispatchEvent e ty w) =
     invoked fn w + length (filter (\<lambda>l. fst l = e \<and> fst (snd l) = ty \<and> fst (snd (snd l)) = fn)
                              (listeners w))"
  by (simp add: invoked_def dispatchEvent_log count_invoke_map conj_commute conj_left_commute)

lemma dispatchEvent_keeps_persistent:
  assumes "filter (\<lambda>l. fst l = e \<and> fst (snd l) = ty \<and> fst (snd (snd l)) = fn) (listeners w)
             = [(e, ty, fn, False)]"
  shows "filter (\<lambda>l. fst l = e \<and> fst (snd l) = ty \<and> fst (snd (snd l)) = fn)
           (listeners (dispatchEvent e ty w)) = [(e, ty, fn, False)]"
proof -
  let ?P = "\<lambda>l. fst l = e \<and> fst (snd l) = ty \<and> fst (snd (snd l)) = fn"
  let ?Q = "\<lambda>l. \<not> (fst l = e \<and> fst (snd l) = ty \<and> snd (snd (snd l)))"
  have "filter ?P (filter ?Q (listeners w)) = filter ?Q (filter ?P (listeners w))"
    by (simp add: conj_commute)
  also have "\<dots> = [(e, ty, fn, False)]"
    by (simp add: assms)
  finally show ?thesis
    by (simp only: dispatchEvent_listeners)
qed

lemma invoked_dispatch_funpow:
  assumes "filter (\<lambda>l. fst l = e \<and> fst (snd l) = ty \<and> fst (snd (snd l)) = fn) (listeners w)
             = [(e, ty, fn, False)]"
  shows "invoked fn ((dispatchEvent e ty ^^ n) w) = invoked fn w + n
       \<and> filter (\<lambda>l. fst l = e \<and> fst (snd l) = ty \<and> fst (snd (snd l)) = fn)
           (listeners ((dispatchEvent e ty ^^ n) w)) = [(e, ty, fn, False)]"
proof (induction n)
  case 0
  show ?case using assms by simp
next
  case (Suc n)
  then show ?case
    by (simp add: invoked_dispatchEvent dispatchEvent_keeps_persistent)
qed

subsection \<open>Creating components\<close>

lemma createAndBindMotionState_frame:
  assumes "createAndBindMotionState e options ps parent w = Inr (b, w')"
  shows "next_id w' = Suc (next_id w)" and "vars w' = vars w" and "sigs w' = sigs w"
    and "\<forall>i. i \<noteq> next_id w \<longrightarrow> handles w' i = handles w i"
    and "h_parent (handles w' (next_id w)) = parent" and "b_state b = next_id w"
proof -
  obtain p where p: "options = Fn p"
    using assms by (cases options) (simp_all add: createAndBindMotionState_def)
  let ?b = "\<lparr>b_el = e, b_options = Fn p, b_presenceState = ps, b_state = next_id w\<rparr>"
  let ?ob = "if presence_read w ps = JBool False
             then set_prop (call_producer w p) ''initial'' (JBool False) else call_producer w p"
  from assms
  have "Inr (?b, (snd (createMotionState ?ob parent w))\<lparr>onMounts := onMounts w @ [?b]\<rparr>)
          = (Inr (b, w') :: error + binding \<times> world)"
    by (simp only: p createAndBindMotionState_Fn)
  then have eqs: "?b = b
      \<and> (snd (createMotionState ?ob parent w))\<lparr>onMounts := onMounts w @ [?b]\<rparr> = w'"
    by blast
  have b: "b = ?b"
    using eqs by (rule conjunct1 [THEN sym])
  have w': "w' = (snd (createMotionState ?ob parent w))\<lparr>onMounts := onMounts w @ [?b]\<rparr>"
    using eqs by (rule conjunct2 [THEN sym])
  show "next_id w' = Suc (next_id w)" by (simp add: w')
  show "vars w' = vars w" by (simp add: w')
  show "sigs w' = sigs w" by (simp add: w')
  show "\<forall>i. i \<noteq> next_id w \<longrightarrow> handles w' i = handles w i"
    by (simp add: w' createMotionState_def Let_def emit_def)
  show "h_parent (handles w' (next_id w)) = parent" by (simp add: w')
  show "b_state b = next_id w" by (simp add: b)
qed

lemma createMotion_Inr:
  "\<exists>w'. createMotion target options ps w = Inr (next_id w, w')
        \<and> next_id w' = Suc (next_id w) \<and> vars w' = vars w
        \<and> (\<forall>i. i \<noteq> next_id w \<longrightarrow> handles w' i = handles w i)
        \<and> h_parent (handles w' (next_id w)) = None"
proof -
  obtain p where p: "(case options of Fn p \<Rightarrow> Fn p | Value v \<Rightarrow> Fn (ConstFn v)) = Fn p"
    by (cases options) simp_all
  obtain b w' where r: "createAndBindMotionState target (Fn p) ps None w = Inr (b, w')"
    by (simp add: createAndBindMotionState_Fn)
  from createAndBindMotionState_frame [OF r] r show ?thesis
    by (simp add: createMotion_def p)
qed

lemma MotionComponent_Inr:
  "\<exists>w'. MotionComponent ev props root w = Inr (next_id w, ev\<lparr>parentCtx := Some (next_id w) # parentCtx ev\<rparr>, w')
        \<and> next_id w' = Suc (next_id w) \<and> vars w' = vars w
        \<and> (\<forall>i. i \<noteq> next_id w \<longrightarrow> handles w' i = handles w i)
        \<and> h_parent (handles w' (next_id w)) = useContext (runtime w) (parentCtx ev)"
proof -
  obtain b w' where r: "createAndBindMotionState root (Fn (SplitFn props)) (presenceCtx ev)
                          (useContext (runtime w) (parentCtx ev)) w = Inr (b, w')"
    by (simp add: createAndBindMotionState_Fn)
  from createAndBindMotionState_frame [OF r] r show ?thesis
    by (simp add: MotionComponent_def)
qed

lemma render_frame:
  "render ev c w = Inr w' \<Longrightarrow>
     next_id w \<le> next_id w' \<and> (\<forall>i < next_id w. vars w' i = vars w i \<and> handles w' i = handles w i)"
  "render_list ev cs w = Inr w' \<Longrightarrow>
     next_id w \<le> next_id w' \<and> (\<forall>i < next_id w. vars w' i = vars w i \<and> handles w' i = handles w i)"
proof (induction ev c w and ev cs w arbitrary: w' and w' rule: render_render_list.induct)
  case (1 ev props root kids w)
  obtain w1 where m: "MotionComponent ev props root w = Inr (next_id w, ev\<lparr>parentCtx := Some (next_id w) # parentCtx ev\<rparr>, w1)"
    and f: "next_id w1 = Suc (next_id w)" "vars w1 = vars w"
      "\<forall>i. i \<noteq> next_id w \<longrightarrow> handles w1 i = handles w i"
    using MotionComponent_Inr [of ev props root w] by blast
  from "1.prems" m have r: "render_list (ev\<lparr>parentCtx := Some (next_id w) # parentCtx ev\<rparr>) kids w1 = Inr w'"
    by simp
  from "1.IH" [OF m refl refl r] f show ?case
    by auto
next
  case (2 ev e props w)
  obtain w1 where m: "createMotion e props (presenceCtx ev) w = Inr (next_id w, w1)"
    and f: "next_id w1 = Suc (next_id w)" "vars w1 = vars w"
      "\<forall>i. i \<noteq> next_id w \<longrightarrow> handles w1 i = handles w i"
    using createMotion_Inr [of e props "presenceCtx ev" w] by blast
  from "2.prems" m have "w' = w1" by (simp add: motion_def)
  with f show ?case by auto
next
  case (3 ev e kids w)
  then show ?case by simp
next
  case (4 ev props kids w)
  let ?w1 = "w\<lparr>vars := (vars w)(next_id w := JBool (Presence_initial props)),
                next_id := Suc (next_id w)\<rparr>"
  let ?ev = "(ev\<lparr>presenceCtx := Some (next_id w), parentCtx := None # parentCtx ev\<rparr>)"
  from "4.prems" obtain w2 where r: "render_list ?ev kids ?w1 = Inr w2"
    by (auto simp: Let_def split: sum.splits)
  with "4.prems" have w': "w' = (snd (createSwitchTransition (resolveFirst kids)
                      (truthy (vars w2 (next_id w))) (Presence_mode props) w2))
                 \<lparr>vars := (vars (snd (createSwitchTransition (resolveFirst kids)
                      (truthy (vars w2 (next_id w))) (Presence_mode props) w2)))(next_id w := JBool True)\<rparr>"
    by (simp add: Let_def split_beta)
  from "4.IH" [OF refl refl r]
  have f: "Suc (next_id w) \<le> next_id w2"
    "\<forall>i < Suc (next_id w). vars w2 i = vars ?w1 i \<and> handles w2 i = handles ?w1 i"
    by simp_all
  show ?case
    using f by (simp add: w' createSwitchTransition_def Let_def)
next
  case (5 ev w)
  then show ?case by simp
next
  case (6 ev c cs w)
  from "6.prems" obtain w1 where r1: "render ev c w = Inr w1" and r2: "render_list ev cs w1 = Inr w'"
    by (auto split: sum.splits)
  from "6.IH"(1) [OF r1] "6.IH"(2) [OF r1 r2] show ?case
    by auto
qed

subsection \<open>Events of the host runtime\<close>

lemma createEffect_fields [simp]:
  "vars (createEffect ef w) = vars w" "next_id (createEffect ef w) = next_id w"
  "sigs (createEffect ef w) = sigs w"
  by (simp_all add: createEffect_def)

lemma onMount_fields [simp]:
  "vars (createAndBindMotionState_onMount b w) = vars w"
  "next_id (createAndBindMotionState_onMount b w) = next_id w"
  by (simp_all add: createAndBindMotionState_onMount_def Let_def split_beta split: optarg.splits)

lemma fold_onMount_fields [simp]:
  "vars (fold createAndBindMotionState_onMount bs w) = vars w"
  "next_id (fold createAndBindMotionState_onMount bs w) = next_id w"
  by (induction bs arbitrary: w; simp)+

lemma fold_run_effect_fields [simp]:
  "vars (fold run_effect efs w) = vars w"
  "next_id (fold run_effect efs w) = next_id w"
  "sigs (fold run_effect efs w) = sigs w"
  by (induction efs arbitrary: w; simp)+

lemma state_setActive_fields [simp]:
  "vars (state_setActive h n a w) = vars w" "next_id (state_setActive h n a w) = next_id w"
  by (simp_all add: state_setActive_def)



lemma onExit_fields [simp]:
  "vars (onExit e cb w) = vars w" "next_id (onExit e cb w) = next_id w"
  by (simp_all add: onExit_def split: option.splits)

lemma exitTransition_fields [simp]:
  "vars (exitTransition k prev w) = vars w" "next_id (exitTransition k prev w) = next_id w"
  by (simp_all add: exitTransition_def split: option.splits)

lemma source_changed_fields [simp]:
  "vars (source_changed k new w) = vars w" "next_id (source_changed k new w) = next_id w"
  by (simp_all add: source_changed_def Let_def split: tmode.splits)



subsection \<open>Creation always succeeds\<close>

lemma render_list_append:
  "render_list ev (xs @ ys) w =
     (case render_list ev xs w of Inl err \<Rightarrow> Inl err | Inr w1 \<Rightarrow> render_list ev ys w1)"
  by (induction xs arbitrary: w) (simp_all split: sum.splits)

lemma render_total:
  "\<exists>w'. render ev c w = Inr w'"
  "\<exists>w'. render_list ev cs w = Inr w'"
proof (induction ev c w and ev cs w rule: render_render_list.induct)
  case (1 ev props root kids w)
  obtain w1 where m: "MotionComponent ev props root w = Inr (next_id w, ev\<lparr>parentCtx := Some (next_id w) # parentCtx ev\<rparr>, w1)"
    using MotionComponent_Inr [of ev props root w] by blast
  from "1.IH" [OF m refl refl] m show ?case by simp
next
  case (2 ev e props w)
  obtain w1 where "createMotion e props (presenceCtx ev) w = Inr (next_id w, w1)"
    using createMotion_Inr [of e props "presenceCtx ev" w] by blast
  then show ?case by (simp add: motion_def)
next
  case (3 ev e kids w)
  then show ?case by simp
next
  case (4 ev props kids w)
  from "4.IH" [OF refl refl] show ?case
    by (auto simp: Let_def split_beta)
next
  case (5 ev w)
  show ?case by simp
next
  case (6 ev c cs w)
  from "6.IH"(1) obtain w1 where r: "render ev c w = Inr w1" by blast
  from "6.IH"(2) [OF r] r show ?case by simp
qed

subsection \<open>The constructor calls made by creating a tree\<close>


lemma ids_used_list_append: "ids_used_list (xs @ ys) = ids_used_list xs + ids_used_list ys"
  by (induction xs) simp_all


lemma first_options_simps:
  "first_options (JBool True) ob = ob"
  "first_options (JBool False) ob = set_prop ob ''initial'' (JBool False)"
  "first_options JUndefined ob = ob"
  by (simp_all add: first_options_def)




subsection \<open>Tags and absent props\<close>

lemma key_val_defined: "key_val tag \<noteq> JUndefined"
  by (cases tag) simp_all

lemma truthy_key_val: "truthy (key_val tag) \<longleftrightarrow> tag \<noteq> KStr []"
  by (cases tag) simp_all

lemma get_prop_mergeProps_single:
  "v \<noteq> JUndefined \<Longrightarrow> get_prop (mergeProps a [(k, v)]) k = v"
  by (simp add: mergeProps_def get_prop_set_prop_same)

lemma get_prop_absent: "map_of ob k = None \<Longrightarrow> get_prop ob k = JUndefined"
  by (simp add: get_prop_def)

subsection \<open>Counting update calls\<close>

lemma update_calls_run_effect:
  "update_calls h (run_effect ef w) = update_calls h w + (if fst ef = h then 1 else 0)"
  by (cases ef) (simp add: update_calls_def)

lemma update_calls_fold_run_effect:
  "update_calls h (fold run_effect efs w) =
     update_calls h w + length (filter (\<lambda>ef. fst ef = h) efs)"
  by (induction efs arbitrary: w) (simp_all add: update_calls_run_effect)

lemma effects_fold_run_effect [simp]: "effects (fold run_effect efs w) = effects w"
  by (induction efs arbitrary: w) simp_all

lemma update_calls_set_signal:
  "update_calls h (set_signal c v w) =
     update_calls h w + length (filter (\<lambda>ef. fst ef = h \<and> producer_reads (snd ef) c) (effects w))"
proof -
  have "update_calls h (w\<lparr>sigs := (sigs w)(c := v)\<rparr>) = update_calls h w"
    by (simp add: update_calls_def)
  then show ?thesis
    by (simp add: set_signal_def update_calls_fold_run_effect conj_commute)
qed

lemma effects_set_signal [simp]: "effects (set_signal c v w) = effects w"
  by (simp add: set_signal_def)

lemma update_calls_changes:
  assumes "filter (\<lambda>ef. fst ef = h) (effects w) = [(h, p)]"
  shows "update_calls h (fold (\<lambda>cv. set_signal (fst cv) (snd cv)) chs w) =
           update_calls h w + length (filter (\<lambda>cv. producer_reads p (fst cv)) chs)"
  using assms
proof (induction chs arbitrary: w)
  case Nil
  show ?case by simp
next
  case (Cons cv chs)
  have "filter (\<lambda>ef. fst ef = h \<and> producer_reads (snd ef) (fst cv)) (effects w)
          = filter (\<lambda>ef. producer_reads (snd ef) (fst cv)) (filter (\<lambda>ef. fst ef = h) (effects w))"
    by (simp add: conj_commute)
  also have "\<dots> = (if producer_reads p (fst cv) then [(h, p)] else [])"
    by (simp add: Cons.prems)
  finally have one: "length (filter (\<lambda>ef. fst ef = h \<and> producer_reads (snd ef) (fst cv)) (effects w))
          = (if producer_reads p (fst cv) then 1 else 0)"
    by simp
  have "filter (\<lambda>ef. fst ef = h) (effects (set_signal (fst cv) (snd cv) w)) = [(h, p)]"
    using Cons.prems by simp
  from Cons.IH [OF this] show ?case
    by (simp add: update_calls_set_signal one)
qed

lemma update_calls_onMount:
  assumes "b_options b = Fn p" and "\<forall>ef \<in> set (effects w). fst ef \<noteq> b_state b"
  shows "update_calls (b_state b) (createAndBindMotionState_onMount b w) = Suc (update_calls (b_state b) w)"
    and "filter (\<lambda>ef. fst ef = b_state b) (effects (createAndBindMotionState_onMount b w))
           = [(b_state b, p)]"
proof -
  show "update_calls (b_state b) (createAndBindMotionState_onMount b w) = Suc (update_calls (b_state b) w)"
    by (simp add: update_calls_def onMount_Fn(1) [OF assms(1)])
  have "filter (\<lambda>ef. fst ef = b_state b) (effects w) = []"
    using assms(2) by (simp add: filter_empty_conv)
  then show "filter (\<lambda>ef. fst ef = b_state b) (effects (createAndBindMotionState_onMount b w))
           = [(b_state b, p)]"
    by (simp add: onMount_Fn(2) [OF assms(1)])
qed

text \<open>Every run of the tracked computation is one update call: once at mount, once per
  change of a cell the producer reads.\<close>

lemma reactive_update_calls:
  assumes "b_options b = Fn p" and "\<forall>ef \<in> set (effects w). fst ef \<noteq> b_state b"
  shows "update_calls (b_state b)
           (fold (\<lambda>cv. set_signal (fst cv) (snd cv)) chs (createAndBindMotionState_onMount b w))
         = update_calls (b_state b) w + 1 + length (filter (\<lambda>cv. producer_reads p (fst cv)) chs)"
  using update_calls_changes [OF update_calls_onMount(2) [OF assms], of chs]
        update_calls_onMount(1) [OF assms]
  by simp

subsection \<open>The coordinator under dispatch\<close>

lemma fold_unmounts_coords:
  "\<forall>l \<in> set ls. \<exists>h'. f l = UnmountFn h' \<Longrightarrow>
     coords (fold (\<lambda>l. run_callback (f l)) ls w) = coords w"
proof (induction ls arbitrary: w)
  case Nil
  show ?case by simp
next
  case (Cons l ls)
  then obtain h' where "f l = UnmountFn h'" by auto
  then have "coords (run_callback (f l) w) = coords w"
    by (simp add: state_unmount_def split: option.splits)
  with Cons show ?case by simp
qed

lemma coords_enterTransition:
  "coords (enterTransition k w) =
     (case c_next (coords w k) of
        None \<Rightarrow> coords w
      | Some e \<Rightarrow> (coords w)(k := (coords w k)\<lparr>c_next := None,
                                    c_returned := e # c_returned (coords w k)\<rparr>))"
  by (simp add: enterTransition_def Let_def split: option.splits)

lemma coords_remove_child_cong:
  assumes "coords w' = coords w"
  shows "coords (remove_child k a w') = coords (remove_child k a w)"
  by (simp add: remove_child_def Let_def coords_enterTransition assms split: option.splits)

lemma dispatch_removal:
  assumes only: "\<forall>l \<in> set (listeners w). fst l = a \<longrightarrow> (\<exists>h'. fst (snd (snd l)) = UnmountFn h')"
  shows "coords (dispatchEvent a ty (addEventListener a ty (RemoveFn k a) False w)) =
           coords (remove_child k a w)"
proof -
  let ?m = "\<lambda>l. fst l = a \<and> fst (snd l) = ty"
  let ?q = "\<lambda>l. \<not> (fst l = a \<and> fst (snd l) = ty \<and> snd (snd (snd l)))"
  have notin: "\<not> (\<exists>l \<in> set (listeners w). fst l = a \<and> fst (snd l) = ty \<and> fst (snd (snd l)) = RemoveFn k a)"
    using only by fastforce
  then have ls: "listeners (addEventListener a ty (RemoveFn k a) False w)
                   = listeners w @ [(a, ty, RemoveFn k a, False)]"
    by (simp add: addEventListener_def)
  have co: "coords (addEventListener a ty (RemoveFn k a) False w) = coords w"
    by simp
  let ?w1 = "(addEventListener a ty (RemoveFn k a) False w)
               \<lparr>listeners := filter ?q (listeners w @ [(a, ty, RemoveFn k a, False)])\<rparr>"
  have u: "\<forall>l \<in> set (filter ?m (listeners w)). \<exists>h'. fst (snd (snd l)) = UnmountFn h'"
    using only by auto
  have "dispatchEvent a ty (addEventListener a ty (RemoveFn k a) False w) =
          run_callback (RemoveFn k a)
            (fold (\<lambda>l. run_callback (fst (snd (snd l)))) (filter ?m (listeners w)) ?w1)"
    by (simp add: dispatchEvent_def Let_def ls del: run_callback.simps)
  then have "coords (dispatchEvent a ty (addEventListener a ty (RemoveFn k a) False w)) =
          coords (remove_child k a
            (emit (Invoke (RemoveFn k a))
               (fold (\<lambda>l. run_callback (fst (snd (snd l)))) (filter ?m (listeners w)) ?w1)))"
    by simp
  also have "\<dots> = coords (remove_child k a w)"
  proof (rule coords_remove_child_cong)
    show "coords (emit (Invoke (RemoveFn k a))
               (fold (\<lambda>l. run_callback (fst (snd (snd l)))) (filter ?m (listeners w)) ?w1))
          = coords w"
      using fold_unmounts_coords [OF u, of ?w1] by simp
  qed
  finally show ?thesis .
qed

subsection \<open>Mount callbacks run by the host\<close>

lemma onMount_log:
  "log (createAndBindMotionState_onMount b w) =
     log w @ StateMount (b_state b) (b_el b)
       # (case b_options b of Value v \<Rightarrow> [] | Fn p \<Rightarrow> [StateUpdate (b_state b) (call_producer w p)])"
proof (cases "b_options b")
  case (Value v)
  then show ?thesis
    by (simp add: createAndBindMotionState_onMount_def Let_def split_beta)
next
  case (Fn p)
  from onMount_Fn(1) [OF Fn, of w] Fn show ?thesis by simp
qed

lemma onMount_coords [simp]:
  "coords (createAndBindMotionState_onMount b w) = coords w"
  by (cases "b_options b")
     (simp_all add: createAndBindMotionState_onMount_def Let_def split_beta createEffect_def)

lemma onMount_invoked [simp]:
  "invoked fn (createAndBindMotionState_onMount b w) = invoked fn w"
  by (simp add: invoked_def onMount_log split: optarg.splits)

lemma fold_onMount_coords [simp]:
  "coords (fold createAndBindMotionState_onMount bs w) = coords w"
  by (induction bs arbitrary: w) simp_all

lemma fold_onMount_invoked [simp]:
  "invoked fn (fold createAndBindMotionState_onMount bs w) = invoked fn w"
  by (induction bs arbitrary: w) simp_all

lemma fold_onMount_log_mono:
  "set (log w) \<subseteq> set (log (fold createAndBindMotionState_onMount bs w))"
proof (induction bs arbitrary: w)
  case Nil
  show ?case by simp
next
  case (Cons b bs)
  have "set (log w) \<subseteq> set (log (createAndBindMotionState_onMount b w))"
    by (auto simp: onMount_log)
  with Cons [of "createAndBindMotionState_onMount b w"] show ?case
    by auto
qed

lemma fold_onMount_mounts:
  "b \<in> set bs \<Longrightarrow>
     StateMount (b_state b) (b_el b) \<in> set (log (fold createAndBindMotionState_onMount bs w))"
proof (induction bs arbitrary: w)
  case Nil
  then show ?case by simp
next
  case (Cons a bs)
  show ?case
  proof (cases "b = a")
    case True
    have "StateMount (b_state b) (b_el b) \<in> set (log (createAndBindMotionState_onMount a w))"
      by (simp add: onMount_log True)
    with fold_onMount_log_mono [of "createAndBindMotionState_onMount a w" bs] show ?thesis
      by auto
  next
    case False
    with Cons.prems have "b \<in> set bs" by simp
    from Cons.IH [OF this] show ?thesis by simp
  qed
qed

subsection \<open>The sample worlds\<close>

lemma sample_world_facts:
  "mountedStates (sample_world props) 5 = Some 1"
  "state_getOptions (sample_world props) 1 = [(''initial'', JObj 2), (''exit'', JObj 1)]"
  "listeners (sample_world props) = []"
  "c_mode (coords (sample_world props) 2) = Presence_mode props"
  "c_current (coords (sample_world props) 2) = Some 5"
  "c_returned (coords (sample_world props) 2) = [5]"
  "c_next (coords (sample_world props) 2) = None"
  "\<not> c_exiting (coords (sample_world props) 2)"
  by (simp_all add: sample_world_def sample_child_def Motion_def world0_def MotionComponent_def
        createAndBindMotionState_def createMotionState_def Let_def emit_def presence_read_def
        createSwitchTransition_def run_onMounts_def createAndBindMotionState_onMount_def
        state_mount_def createEffect_def run_effect_def state_update_def state_getOptions_def
        mergeProps_def OPTION_KEYS_def Presence_initial_def)

lemma update_args_run_effect:
  "update_args h (run_effect ef w) =
     update_args h w @ (if fst ef = h then [call_producer w (snd ef)] else [])"
  by (cases ef) (simp add: update_args_def)

lemma update_args_fold_run_effect:
  "update_args h (fold run_effect efs w) =
     update_args h w @ map (\<lambda>ef. call_producer w (snd ef)) (filter (\<lambda>ef. fst ef = h) efs)"
proof (induction efs arbitrary: w)
  case Nil
  show ?case by simp
next
  case (Cons ef efs)
  have c: "call_producer (run_effect ef w) q = call_producer w q" for q
    by (rule call_producer_cong) simp
  show ?case
    by (simp add: Cons.IH update_args_run_effect c)
qed

lemma update_args_set_signal:
  assumes "filter (\<lambda>ef. fst ef = h) (effects w) = [(h, p)]"
  shows "update_args h (set_signal c v w) =
           update_args h w @
             (if producer_reads p c then [call_producer (w\<lparr>sigs := (sigs w)(c := v)\<rparr>) p] else [])"
proof -
  have f: "filter (\<lambda>ef. fst ef = h) (filter (\<lambda>ef. producer_reads (snd ef) c) (effects w))
          = filter (\<lambda>ef. producer_reads (snd ef) c) (filter (\<lambda>ef. fst ef = h) (effects w))"
    by (simp add: conj_commute)
  have u: "update_args h (w\<lparr>sigs := (sigs w)(c := v)\<rparr>) = update_args h w"
    by (simp add: update_args_def)
  show ?thesis
    unfolding set_signal_def update_args_fold_run_effect f assms u by simp
qed

lemma update_args_onMount:
  assumes "b_options b = Fn p"
  shows "update_args (b_state b) (createAndBindMotionState_onMount b w) =
           update_args (b_state b) w @ [call_producer w p]"
  by (simp add: update_args_def onMount_Fn(1) [OF assms])

lemma swap_world_facts:
  "c_mode (coords swap_world 2) = OutIn"
  "c_exiting (coords swap_world 2)"
  "c_returned (coords swap_world 2) = [5]"
  "c_next (coords swap_world 2) = Some 6"
  "invoked (RemoveFn 2 5) swap_world = 0"
  "invoked (UnmountFn 1) swap_world = 0"
  "onMounts swap_world = [replacement_binding]"
  by code_simp+

section \<open>Cleanup: synchronous or deferred unmount\<close>

text \<open>
  Claim C1. Cleanup of a binding (lines 72-77). When the binding has a presence flag and
  the options, read at cleanup time, carry a truthy \<^verbatim>\<open>exit\<close>, the cleanup succeeds and its
  only calls are \<^verbatim>\<open>setActive("exit", true)\<close> on the handle and the registration of the
  unmount procedure for the element's \<^verbatim>\<open>motioncomplete\<close> event: the unmount procedure is
  not called, the element stays in \<^verbatim>\<open>mountedStates\<close>, and dispatching \<^verbatim>\<open>motioncomplete\<close> on
  the element afterwards calls the unmount procedure. When the binding has no presence
  flag, or the options carry no truthy \<^verbatim>\<open>exit\<close>, the cleanup is exactly one synchronous
  call of the unmount procedure and registers no listener.
\<close>

theorem createAndBindMotionState_onCleanup_exit:
  assumes fn: "b_options b = Fn p"
  shows
  "(b_presenceState b \<noteq> None \<and> truthy (get_prop (call_producer w p) ''exit'')
    \<longrightarrow> (\<exists>w'. createAndBindMotionState_onCleanup b w = Inr w'
          \<and> log w' = log w @ [SetActive (b_state b) ''exit'' True,
                              AddEventListener (b_el b) ''motioncomplete'' (UnmountFn (b_state b))]
          \<and> mountedStates w' = mountedStates w
          \<and> (\<exists>calls. log (dispatchEvent (b_el b) ''motioncomplete'' w') = log w' @ calls
                     \<and> Invoke (UnmountFn (b_state b)) \<in> set calls)))
   \<and> (b_presenceState b = None \<or> \<not> truthy (get_prop (call_producer w p) ''exit'')
    \<longrightarrow> (\<exists>w'. createAndBindMotionState_onCleanup b w = Inr w'
          \<and> w' = run_callback (UnmountFn (b_state b)) w
          \<and> log w' = log w @ [Invoke (UnmountFn (b_state b))]
          \<and> listeners w' = listeners w))"
proof (intro conjI impI)
  assume a: "b_presenceState b \<noteq> None \<and> truthy (get_prop (call_producer w p) ''exit'')"
  let ?w' = "onCompleteExit (b_el b) (UnmountFn (b_state b))
               (state_setActive (b_state b) ''exit'' True w)"
  have eq: "createAndBindMotionState_onCleanup b w = Inr ?w'"
    using a fn by (auto simp: createAndBindMotionState_onCleanup_def Let_def)
  have l: "log ?w' = log w @ [SetActive (b_state b) ''exit'' True,
                              AddEventListener (b_el b) ''motioncomplete'' (UnmountFn (b_state b))]"
    by (simp add: state_setActive_def)
  have m: "mountedStates ?w' = mountedStates w"
    by (simp add: state_setActive_def)
  show "\<exists>w'. createAndBindMotionState_onCleanup b w = Inr w'
          \<and> log w' = log w @ [SetActive (b_state b) ''exit'' True,
                              AddEventListener (b_el b) ''motioncomplete'' (UnmountFn (b_state b))]
          \<and> mountedStates w' = mountedStates w
          \<and> (\<exists>calls. log (dispatchEvent (b_el b) ''motioncomplete'' w') = log w' @ calls
                     \<and> Invoke (UnmountFn (b_state b)) \<in> set calls)"
  proof -
    from onCompleteExit_fires [of "b_el b" "UnmountFn (b_state b)" "state_setActive (b_state b) ''exit'' True w"]
    obtain calls where c: "log (dispatchEvent (b_el b) ''motioncomplete'' ?w') = log ?w' @ calls"
      "Invoke (UnmountFn (b_state b)) \<in> set calls" by blast
    show ?thesis
      apply (rule exI [of _ ?w'])
      apply (intro conjI)
         apply (rule eq)
        apply (rule l)
       apply (rule m)
      apply (rule exI [of _ calls])
      apply (rule conjI, rule c(1), rule c(2))
      done
  qed
next
  assume a: "b_presenceState b = None \<or> \<not> truthy (get_prop (call_producer w p) ''exit'')"
  have eq: "createAndBindMotionState_onCleanup b w = Inr (run_callback (UnmountFn (b_state b)) w)"
    using a fn by (auto simp: createAndBindMotionState_onCleanup_def Let_def split: option.splits)
  show "\<exists>w'. createAndBindMotionState_onCleanup b w = Inr w'
          \<and> w' = run_callback (UnmountFn (b_state b)) w
          \<and> log w' = log w @ [Invoke (UnmountFn (b_state b))]
          \<and> listeners w' = listeners w"
    using eq by simp
qed

text \<open>Concrete bindings over the empty world: with flag and exit target, with an exit
  target but no flag, and with a flag but no exit target.\<close>

theorem createAndBindMotionState_onCleanup_exit_witness:
  "(b_presenceState (sample_binding [(''exit'', JObj 1)] (Some 0)) \<noteq> None
    \<and> truthy (get_prop (call_producer world0 (ConstFn [(''exit'', JObj 1)])) ''exit'')
    \<and> (\<exists>w'. createAndBindMotionState_onCleanup (sample_binding [(''exit'', JObj 1)] (Some 0)) world0 = Inr w'
          \<and> log w' = log world0 @ [SetActive 1 ''exit'' True,
                                   AddEventListener 5 ''motioncomplete'' (UnmountFn 1)]
          \<and> mountedStates w' = mountedStates world0
          \<and> (\<exists>calls. log (dispatchEvent 5 ''motioncomplete'' w') = log w' @ calls
                     \<and> Invoke (UnmountFn 1) \<in> set calls)))
   \<and> (b_presenceState (sample_binding [(''exit'', JObj 1)] None) = None
    \<and> (\<exists>w'. createAndBindMotionState_onCleanup (sample_binding [(''exit'', JObj 1)] None) world0 = Inr w'
          \<and> w' = run_callback (UnmountFn 1) world0
          \<and> log w' = log world0 @ [Invoke (UnmountFn 1)]
          \<and> listeners w' = listeners world0))
   \<and> (\<not> truthy (get_prop (call_producer world0 (ConstFn [])) ''exit'')
    \<and> (\<exists>w'. createAndBindMotionState_onCleanup (sample_binding [] (Some 0)) world0 = Inr w'
          \<and> w' = run_callback (UnmountFn 1) world0
          \<and> log w' = log world0 @ [Invoke (UnmountFn 1)]
          \<and> listeners w' = listeners world0))"
proof -
  have f1: "b_options (sample_binding [(''exit'', JObj 1)] (Some 0)) = Fn (ConstFn [(''exit'', JObj 1)])"
    and f2: "b_options (sample_binding [(''exit'', JObj 1)] None) = Fn (ConstFn [(''exit'', JObj 1)])"
    and f3: "b_options (sample_binding [] (Some 0)) = Fn (ConstFn [])"
    by (simp_all add: sample_binding_def)
  have a1: "b_presenceState (sample_binding [(''exit'', JObj 1)] (Some 0)) \<noteq> None"
    and a2: "truthy (get_prop (call_producer world0 (ConstFn [(''exit'', JObj 1)])) ''exit'')"
    and a3: "b_presenceState (sample_binding [(''exit'', JObj 1)] None) = None"
    and a4: "\<not> truthy (get_prop (call_producer world0 (ConstFn [])) ''exit'')"
    and s: "b_state (sample_binding ob ps) = 1" "b_el (sample_binding ob ps) = 5"
    for ob ps
    by (simp_all add: sample_binding_def get_prop_def)
  show ?thesis
    using createAndBindMotionState_onCleanup_exit [OF f1, of world0]
      createAndBindMotionState_onCleanup_exit [OF f2, of world0]
      createAndBindMotionState_onCleanup_exit [OF f3, of world0]
      a1 a2 a3 a4
    unfolding s by blast
qed

section \<open>Child removal: immediate or deferred\<close>

text \<open>
  Claim C2. The \<^verbatim>\<open>onExit\<close> handler of the coordinator (lines 46-49). When no animation
  state is recorded for the element, or the recorded state's options carry no truthy
  \<^verbatim>\<open>exit\<close>, the handler is exactly one synchronous call of the removal callback and
  registers nothing. When a state is recorded and its options carry a truthy \<^verbatim>\<open>exit\<close>,
  the handler only registers the removal callback for the element's \<^verbatim>\<open>motioncomplete\<close>
  event: the callback is not called, the coordinator is unchanged, and dispatching
  \<^verbatim>\<open>motioncomplete\<close> on the element afterwards calls it.
\<close>

theorem onExit_removal:
  "(mountedStates w e = None \<or>
     \<not> truthy (get_prop (state_getOptions w (the (mountedStates w e))) ''exit'')
    \<longrightarrow> onExit e remove w = run_callback remove w
        \<and> log (onExit e remove w) = log w @ [Invoke remove]
        \<and> listeners (onExit e remove w) = listeners w)
   \<and> (mountedStates w e \<noteq> None \<and>
       truthy (get_prop (state_getOptions w (the (mountedStates w e))) ''exit'')
    \<longrightarrow> onExit e remove w = onCompleteExit e remove w
        \<and> log (onExit e remove w) = log w @ [AddEventListener e ''motioncomplete'' remove]
        \<and> coords (onExit e remove w) = coords w
        \<and> mountedStates (onExit e remove w) = mountedStates w
        \<and> (\<exists>calls. log (dispatchEvent e ''motioncomplete'' (onExit e remove w)) =
                     log (onExit e remove w) @ calls \<and> Invoke remove \<in> set calls))"
proof (intro conjI impI)
  assume a: "mountedStates w e = None \<or>
     \<not> truthy (get_prop (state_getOptions w (the (mountedStates w e))) ''exit'')"
  then show eq: "onExit e remove w = run_callback remove w"
    by (auto simp: onExit_def split: option.splits)
  show "log (onExit e remove w) = log w @ [Invoke remove]"
    by (simp add: eq)
  show "listeners (onExit e remove w) = listeners w"
    by (simp add: eq)
next
  assume a: "mountedStates w e \<noteq> None \<and>
       truthy (get_prop (state_getOptions w (the (mountedStates w e))) ''exit'')"
  then show eq: "onExit e remove w = onCompleteExit e remove w"
    by (auto simp: onExit_def split: option.splits)
  show "log (onExit e remove w) = log w @ [AddEventListener e ''motioncomplete'' remove]"
    by (simp add: eq)
  show "coords (onExit e remove w) = coords w"
    by (simp add: eq)
  show "mountedStates (onExit e remove w) = mountedStates w"
    by (simp add: eq)
  show "\<exists>calls. log (dispatchEvent e ''motioncomplete'' (onExit e remove w)) =
                     log (onExit e remove w) @ calls \<and> Invoke remove \<in> set calls"
    unfolding eq by (rule onCompleteExit_fires)
qed

text \<open>The handler in the empty world (no state recorded for element 5) and in the sample
  world (element 5 mounted with an exit target).\<close>

theorem onExit_removal_witness:
  "mountedStates world0 5 = None
   \<and> onExit 5 (RemoveFn 2 5) world0 = run_callback (RemoveFn 2 5) world0
   \<and> log (onExit 5 (RemoveFn 2 5) world0) = log world0 @ [Invoke (RemoveFn 2 5)]
   \<and> listeners (onExit 5 (RemoveFn 2 5) world0) = listeners world0
   \<and> mountedStates (sample_world []) 5 \<noteq> None
   \<and> truthy (get_prop (state_getOptions (sample_world []) (the (mountedStates (sample_world []) 5))) ''exit'')
   \<and> onExit 5 (RemoveFn 2 5) (sample_world []) = onCompleteExit 5 (RemoveFn 2 5) (sample_world [])
   \<and> log (onExit 5 (RemoveFn 2 5) (sample_world [])) =
       log (sample_world []) @ [AddEventListener 5 ''motioncomplete'' (RemoveFn 2 5)]
   \<and> (\<exists>calls. log (dispatchEvent 5 ''motioncomplete'' (onExit 5 (RemoveFn 2 5) (sample_world []))) =
                log (onExit 5 (RemoveFn 2 5) (sample_world [])) @ calls
              \<and> Invoke (RemoveFn 2 5) \<in> set calls)"
proof -
  have a1: "mountedStates world0 5 = None"
    by (simp add: world0_def)
  have a2: "mountedStates (sample_world []) 5 \<noteq> None"
    by (simp add: sample_world_facts)
  have a3: "truthy (get_prop (state_getOptions (sample_world []) (the (mountedStates (sample_world []) 5))) ''exit'')"
    unfolding sample_world_facts option.sel by (simp add: get_prop_def)
  show ?thesis
    using onExit_removal [of world0 5 "RemoveFn 2 5"]
      onExit_removal [of "sample_world []" 5 "RemoveFn 2 5"] a1 a2 a3
    by blast
qed

section \<open>Update calls on the handle\<close>

text \<open>
  Claim C3, as amended. For a binding whose options source is a function, the mount
  callback installs the update computation for the handle and runs it once; the
  computation runs once more for every change of a reactive cell the function reads.
  Every run is exactly one \<^verbatim>\<open>update\<close> call with the function's result at that moment. So
  after the mount and a sequence of changes, the handle has received one update call
  for the mount and one for each change of a cell the function reads: \<open>N\<close> changes give
  \<open>N + 1\<close> calls. The hypothesis says that no computation was installed for this handle
  before, which holds for the fresh handle of a binding that is mounted once.
\<close>

theorem update_once_per_run:
  assumes fn: "b_options b = Fn p"
    and fresh: "\<forall>ef \<in> set (effects w). fst ef \<noteq> b_state b"
  shows "effects (createAndBindMotionState_onMount b w) = effects w @ [(b_state b, p)]
       \<and> update_args (b_state b) (createAndBindMotionState_onMount b w) =
           update_args (b_state b) w @ [call_producer w p]
       \<and> (\<forall>c v. producer_reads p c \<longrightarrow>
             update_args (b_state b) (set_signal c v (createAndBindMotionState_onMount b w)) =
               update_args (b_state b) w @
                 [call_producer w p, call_producer (w\<lparr>sigs := (sigs w)(c := v)\<rparr>) p])
       \<and> (\<forall>chs. update_calls (b_state b)
             (fold (\<lambda>cv. set_signal (fst cv) (snd cv)) chs (createAndBindMotionState_onMount b w))
           = update_calls (b_state b) w + 1 + length (filter (\<lambda>cv. producer_reads p (fst cv)) chs))"
proof (intro conjI allI impI)
  show "effects (createAndBindMotionState_onMount b w) = effects w @ [(b_state b, p)]"
    by (rule onMount_Fn(2) [OF fn])
  show "update_args (b_state b) (createAndBindMotionState_onMount b w) =
           update_args (b_state b) w @ [call_producer w p]"
    by (rule update_args_onMount [OF fn])
next
  fix c v
  assume r: "producer_reads p c"
  let ?m = "createAndBindMotionState_onMount b w"
  have s: "sigs ?m = sigs w"
    by (rule onMount_Fn(5) [OF fn])
  have "call_producer (?m\<lparr>sigs := (sigs ?m)(c := v)\<rparr>) p
          = call_producer (w\<lparr>sigs := (sigs w)(c := v)\<rparr>) p"
    by (rule call_producer_cong) (simp add: s)
  with update_args_set_signal [OF update_calls_onMount(2) [OF fn fresh], of c v] r
    update_args_onMount [OF fn, of w]
  show "update_args (b_state b) (set_signal c v ?m) =
               update_args (b_state b) w @
                 [call_producer w p, call_producer (w\<lparr>sigs := (sigs w)(c := v)\<rparr>) p]"
    by simp
next
  fix chs
  show "update_calls (b_state b)
             (fold (\<lambda>cv. set_signal (fst cv) (snd cv)) chs (createAndBindMotionState_onMount b w))
           = update_calls (b_state b) w + 1 + length (filter (\<lambda>cv. producer_reads p (fst cv)) chs)"
    by (rule reactive_update_calls [OF fn fresh])
qed

text \<open>A binding whose options function reads cell 9, mounted in the empty world, with one
  and with two changes of the cell.\<close>

theorem update_once_per_run_witness:
  "b_options (\<lparr>b_el = 5, b_options = Fn (SignalFn 9), b_presenceState = None, b_state = 0\<rparr>)
     = Fn (SignalFn 9)
   \<and> effects world0 = []
   \<and> producer_reads (SignalFn 9) 9
   \<and> update_args 0 (set_signal 9 [(''animate'', JObj 2)]
        (createAndBindMotionState_onMount
           \<lparr>b_el = 5, b_options = Fn (SignalFn 9), b_presenceState = None, b_state = 0\<rparr> world0))
       = update_args 0 world0 @
           [call_producer world0 (SignalFn 9),
            call_producer (world0\<lparr>sigs := (sigs world0)(9 := [(''animate'', JObj 2)])\<rparr>) (SignalFn 9)]
   \<and> update_calls 0
        (fold (\<lambda>cv. set_signal (fst cv) (snd cv)) [(9, [(''animate'', JObj 2)]), (9, [])]
           (createAndBindMotionState_onMount
              \<lparr>b_el = 5, b_options = Fn (SignalFn 9), b_presenceState = None, b_state = 0\<rparr> world0))
       = update_calls 0 world0 + 1
           + length (filter (\<lambda>cv. producer_reads (SignalFn 9) (fst cv)) [(9, [(''animate'', JObj 2)]), (9, [])])"
proof -
  let ?b = "\<lparr>b_el = 5, b_options = Fn (SignalFn 9), b_presenceState = None, b_state = 0\<rparr>"
  have fn: "b_options ?b = Fn (SignalFn 9)" by simp
  have e: "effects world0 = []" by (simp add: world0_def)
  then have fresh: "\<forall>ef \<in> set (effects world0). fst ef \<noteq> b_state ?b" by simp
  have r: "producer_reads (SignalFn 9) 9" by simp
  have s: "b_state ?b = 0" by simp
  note t = update_once_per_run [OF fn fresh, unfolded s]
  show ?thesis
    by (intro conjI fn e r t [THEN conjunct2, THEN conjunct2, THEN conjunct1, rule_format, OF r]
          t [THEN conjunct2, THEN conjunct2, THEN conjunct2, rule_format])
qed

text \<open>
  The specification words this differently: no update call for a static value, \<open>N\<close> calls
  for \<open>N\<close> re-evaluations. \<^verbatim>\<open>createMotion\<close> with a static options value, mounted: the
  handle has received an update call, not none. \<^verbatim>\<open>createMotion\<close> with a function that reads
  cell 9, mounted, and the cell changed once: the handle has received two update calls,
  not one.
\<close>

theorem update_calls_counterexample:
  "(case createMotion 5 (Value [(''animate'', JObj 1)]) None world0 of
      Inl err \<Rightarrow> False
    | Inr (h, w) \<Rightarrow> \<not> update_calls h (run_onMounts w) = 0)
   \<and> (case createMotion 5 (Fn (SignalFn 9)) None world0 of
      Inl err \<Rightarrow> False
    | Inr (h, w) \<Rightarrow>
        \<not> update_calls h (set_signal 9 [(''animate'', JObj 2)] (run_onMounts w)) = 1)"
  by code_simp

text \<open>
  The static case in general. \<^verbatim>\<open>createMotion\<close> wraps a static options value in the
  constant function \<^verbatim>\<open>() => options\<close> (line 92), so the binding holds a function, the test
  \<^verbatim>\<open>isFunction(options)\<close> of line 78 succeeds, and the mount callback installs the update
  computation and runs it; no later change of a reactive cell adds another call.
\<close>

lemma createMotion_static_wired:
  assumes "\<forall>ef \<in> set (effects w). fst ef < next_id w"
  shows "\<exists>w' b. createMotion target (Value v) ps w = Inr (next_id w, w')
       \<and> onMounts w' = onMounts w @ [b]
       \<and> b_state b = next_id w \<and> b_options b = Fn (ConstFn v) \<and> isFunction (b_options b)
       \<and> effects (createAndBindMotionState_onMount b w') = effects w' @ [(next_id w, ConstFn v)]
       \<and> log (createAndBindMotionState_onMount b w') =
           log w' @ [StateMount (next_id w) target, StateUpdate (next_id w) v]
       \<and> (\<forall>chs. update_calls (next_id w)
             (fold (\<lambda>cv. set_signal (fst cv) (snd cv)) chs (createAndBindMotionState_onMount b w'))
           = update_calls (next_id w) w' + 1)"
proof -
  let ?b = "\<lparr>b_el = target, b_options = Fn (ConstFn v), b_presenceState = ps, b_state = next_id w\<rparr>"
  let ?ob = "if presence_read w ps = JBool False
             then set_prop (call_producer w (ConstFn v)) ''initial'' (JBool False)
             else call_producer w (ConstFn v)"
  let ?w' = "(snd (createMotionState ?ob None w))\<lparr>onMounts := onMounts w @ [?b]\<rparr>"
  have c: "createMotion target (Value v) ps w = Inr (next_id w, ?w')"
    by (simp add: createMotion_def createAndBindMotionState_Fn)
  have fn: "b_options ?b = Fn (ConstFn v)" by simp
  have fresh: "\<forall>ef \<in> set (effects ?w'). fst ef \<noteq> b_state ?b"
    using assms by auto
  have cnt: "update_calls (next_id w)
             (fold (\<lambda>cv. set_signal (fst cv) (snd cv)) chs (createAndBindMotionState_onMount ?b ?w'))
           = update_calls (next_id w) ?w' + 1" for chs
    using reactive_update_calls [OF fn fresh, of chs] by simp
  show ?thesis
    apply (rule exI [of _ ?w'])
    apply (rule exI [of _ ?b])
    apply (intro conjI allI)
           apply (rule c)
          apply simp
         apply simp
        apply simp
       apply simp
      apply (simp add: onMount_Fn(2) [OF fn])
     apply (simp add: onMount_Fn(1) [OF fn])
    apply (rule cnt)
    done
qed

text \<open>The trace of \<^verbatim>\<open>createMotion(5, { animate: ... })\<close> followed by the mount.\<close>

lemma createMotion_static_example:
  "case createMotion 5 (Value [(''animate'', JObj 1)]) None world0 of
      Inl err \<Rightarrow> False
    | Inr (h, w) \<Rightarrow>
        log (run_onMounts w) =
          [CreateMotionState 0 [(''animate'', JObj 1)] None, StateMount 0 5,
           StateUpdate 0 [(''animate'', JObj 1)]]
        \<and> effects (run_onMounts w) = [(0, ConstFn [(''animate'', JObj 1)])]"
  by code_simp

section \<open>The presence flag over time\<close>



text \<open>The same scenario on the trace: the child present at the first creation is
  constructed with \<^verbatim>\<open>initial: false\<close>, the same child inserted afterwards under the same
  flag with its own \<^verbatim>\<open>initial\<close> target; and without the prop the first child keeps its own
  target too.\<close>

lemma first_render_example:
  "case run [Render \<lparr>presenceCtx = None, parentCtx = []\<rparr>
               (PresenceC [(''initial'', JBool False)] [sample_child]),
             Render \<lparr>presenceCtx = Some 0, parentCtx = [None]\<rparr> sample_child] world0 of
     Inl err \<Rightarrow> False
   | Inr w \<Rightarrow> log w =
       [CreateMotionState 1 [(''initial'', JBool False), (''exit'', JObj 1)] None,
        CreateMotionState 3 [(''initial'', JObj 2), (''exit'', JObj 1)] None]"
  by code_simp

lemma default_first_render_example:
  "case render \<lparr>presenceCtx = None, parentCtx = []\<rparr> (PresenceC [] [sample_child]) world0 of
     Inl err \<Rightarrow> False
   | Inr w \<Rightarrow> log w = [CreateMotionState 1 [(''initial'', JObj 2), (''exit'', JObj 1)] None]"
  by code_simp

section \<open>The initial option at construction\<close>

text \<open>
  Claim C5. Construction of a binding from an options function (lines 67-69). The handle
  is the fresh one. When the presence flag is present and reads \<^verbatim>\<open>false\<close>, the handle is
  created with the options function's result in which \<^verbatim>\<open>initial\<close> is \<^verbatim>\<open>false\<close>, whatever the
  function gave for it, and every other option is as the function gave it. When the
  flag is absent or reads anything but \<^verbatim>\<open>false\<close>, the handle is created with the
  function's result unchanged. The override is not applied to updates: in any world,
  also one where the flag still reads \<^verbatim>\<open>false\<close>, the mount callback and every later run
  of the update computation call \<^verbatim>\<open>update\<close> with the function's result as it is.
\<close>

theorem createAndBindMotionState_initial_override:
  assumes "createAndBindMotionState e (Fn p) presenceState parentState w = Inr (b, w')"
  shows "b_state b = next_id w \<and> b_options b = Fn p
    \<and> (presence_read w presenceState = JBool False \<longrightarrow>
         log w' = log w @ [CreateMotionState (b_state b)
                            (set_prop (call_producer w p) ''initial'' (JBool False)) parentState]
         \<and> get_prop (state_getOptions w' (b_state b)) ''initial'' = JBool False
         \<and> (\<forall>k. k \<noteq> ''initial'' \<longrightarrow>
               get_prop (state_getOptions w' (b_state b)) k = get_prop (call_producer w p) k))
    \<and> (presenceState = None \<or> presence_read w presenceState \<noteq> JBool False \<longrightarrow>
         log w' = log w @ [CreateMotionState (b_state b) (call_producer w p) parentState]
         \<and> state_getOptions w' (b_state b) = call_producer w p)
    \<and> (\<forall>w2. log (createAndBindMotionState_onMount b w2) =
               log w2 @ [StateMount (b_state b) e, StateUpdate (b_state b) (call_producer w2 p)]
             \<and> effects (createAndBindMotionState_onMount b w2) = effects w2 @ [(b_state b, p)]
             \<and> log (run_effect (b_state b, p) w2) =
                 log w2 @ [StateUpdate (b_state b) (call_producer w2 p)]
             \<and> state_getOptions (run_effect (b_state b, p) w2) (b_state b) = call_producer w2 p)"
proof -
  let ?b = "\<lparr>b_el = e, b_options = Fn p, b_presenceState = presenceState, b_state = next_id w\<rparr>"
  let ?ob = "if presence_read w presenceState = JBool False
             then set_prop (call_producer w p) ''initial'' (JBool False) else call_producer w p"
  from assms
  have "Inr (?b, (snd (createMotionState ?ob parentState w))\<lparr>onMounts := onMounts w @ [?b]\<rparr>)
          = (Inr (b, w') :: error + binding \<times> world)"
    by (simp only: createAndBindMotionState_Fn)
  then have eqs: "?b = b
      \<and> (snd (createMotionState ?ob parentState w))\<lparr>onMounts := onMounts w @ [?b]\<rparr> = w'"
    by blast
  have b: "b = ?b"
    using eqs by (rule conjunct1 [THEN sym])
  have w': "w' = (snd (createMotionState ?ob parentState w))\<lparr>onMounts := onMounts w @ [?b]\<rparr>"
    using eqs by (rule conjunct2 [THEN sym])
  have opts: "state_getOptions w' (b_state b) = ?ob"
    by (simp add: b w' state_getOptions_def)
  have lg: "log w' = log w @ [CreateMotionState (b_state b) ?ob parentState]"
    by (simp add: b w')
  have none: "presenceState = None \<Longrightarrow> presence_read w presenceState \<noteq> JBool False"
    by (simp add: presence_read_def)
  have fn: "b_options b = Fn p" and el: "b_el b = e"
    by (simp_all add: b)
  show ?thesis
  proof (intro conjI allI impI)
    show "b_state b = next_id w" by (simp add: b)
    show "b_options b = Fn p" by (rule fn)
  next
    assume "presence_read w presenceState = JBool False"
    then show "log w' = log w @ [CreateMotionState (b_state b)
                            (set_prop (call_producer w p) ''initial'' (JBool False)) parentState]"
      using lg by simp
  next
    assume "presence_read w presenceState = JBool False"
    then show "get_prop (state_getOptions w' (b_state b)) ''initial'' = JBool False"
      using opts by (simp add: get_prop_set_prop_same)
  next
    fix k :: string
    assume "presence_read w presenceState = JBool False" "k \<noteq> ''initial''"
    then show "get_prop (state_getOptions w' (b_state b)) k = get_prop (call_producer w p) k"
      using opts by (simp add: get_prop_set_prop_other)
  next
    assume "presenceState = None \<or> presence_read w presenceState \<noteq> JBool False"
    then have "presence_read w presenceState \<noteq> JBool False" using none by blast
    then show "log w' = log w @ [CreateMotionState (b_state b) (call_producer w p) parentState]"
      using lg by simp
  next
    assume "presenceState = None \<or> presence_read w presenceState \<noteq> JBool False"
    then have "presence_read w presenceState \<noteq> JBool False" using none by blast
    then show "state_getOptions w' (b_state b) = call_producer w p"
      using opts by simp
  next
    fix w2
    show "log (createAndBindMotionState_onMount b w2) =
               log w2 @ [StateMount (b_state b) e, StateUpdate (b_state b) (call_producer w2 p)]"
      using onMount_Fn(1) [OF fn, of w2] by (simp add: el)
    show "effects (createAndBindMotionState_onMount b w2) = effects w2 @ [(b_state b, p)]"
      by (rule onMount_Fn(2) [OF fn])
    show "log (run_effect (b_state b, p) w2) =
                 log w2 @ [StateUpdate (b_state b) (call_producer w2 p)]"
      by simp
    show "state_getOptions (run_effect (b_state b, p) w2) (b_state b) = call_producer w2 p"
      by simp
  qed
qed

text \<open>A binding whose options give \<^verbatim>\<open>initial\<close> and \<^verbatim>\<open>animate\<close>, constructed once under
  a flag that reads \<^verbatim>\<open>false\<close> and once without a flag.\<close>

theorem createAndBindMotionState_initial_override_witness:
  "presence_read (world0\<lparr>vars := (\<lambda>c. JBool False)\<rparr>) (Some 0) = JBool False
   \<and> (case createAndBindMotionState 5 (Fn (ConstFn [(''initial'', JObj 2), (''animate'', JObj 3)]))
             (Some 0) None (world0\<lparr>vars := (\<lambda>c. JBool False)\<rparr>) of
        Inl err \<Rightarrow> False
      | Inr (b, w') \<Rightarrow>
          get_prop (state_getOptions w' (b_state b)) ''initial'' = JBool False
          \<and> get_prop (state_getOptions w' (b_state b)) ''animate'' = JObj 3
          \<and> log (createAndBindMotionState_onMount b w') =
              log w' @ [StateMount (b_state b) 5,
                        StateUpdate (b_state b) [(''initial'', JObj 2), (''animate'', JObj 3)]])
   \<and> (case createAndBindMotionState 5 (Fn (ConstFn [(''initial'', JObj 2), (''animate'', JObj 3)]))
             None None world0 of
        Inl err \<Rightarrow> False
      | Inr (b, w') \<Rightarrow>
          state_getOptions w' (b_state b) = [(''initial'', JObj 2), (''animate'', JObj 3)])"
proof -
  let ?p = "ConstFn [(''initial'', JObj 2), (''animate'', JObj 3)]"
  let ?wf = "world0\<lparr>vars := (\<lambda>c. JBool False)\<rparr>"
  have a: "presence_read ?wf (Some 0) = JBool False"
    by (simp add: presence_read_def)
  obtain b w' where r: "createAndBindMotionState 5 (Fn ?p) (Some 0) None ?wf = Inr (b, w')"
    by (simp add: createAndBindMotionState_Fn)
  obtain b2 w2 where r2: "createAndBindMotionState 5 (Fn ?p) None None world0 = Inr (b2, w2)"
    by (simp add: createAndBindMotionState_Fn)
  have k: "''animate'' \<noteq> ''initial''" by simp
  note t1 = createAndBindMotionState_initial_override [OF r]
  note t1a = t1 [THEN conjunct2, THEN conjunct2, THEN conjunct1, rule_format, OF a]
  have c1: "get_prop (state_getOptions w' (b_state b)) ''initial'' = JBool False"
    by (rule t1a [THEN conjunct2, THEN conjunct1])
  have c2: "get_prop (state_getOptions w' (b_state b)) ''animate'' = get_prop (call_producer ?wf ?p) ''animate''"
    by (rule t1a [THEN conjunct2, THEN conjunct2, rule_format, OF k])
  have c3: "log (createAndBindMotionState_onMount b w') =
              log w' @ [StateMount (b_state b) 5, StateUpdate (b_state b) (call_producer w' ?p)]"
    by (rule t1 [THEN conjunct2, THEN conjunct2, THEN conjunct2, THEN conjunct2, rule_format,
                 THEN conjunct1])
  have n: "None = (None :: cell option) \<or> presence_read world0 None \<noteq> JBool False"
    by simp
  have c4: "state_getOptions w2 (b_state b2) = call_producer world0 ?p"
    by (rule createAndBindMotionState_initial_override [OF r2, THEN conjunct2, THEN conjunct2,
          THEN conjunct2, THEN conjunct1, rule_format, OF n, THEN conjunct2])
  show ?thesis
    using a c1 c2 c3 c4 by (simp add: r r2 get_prop_def)
qed

section \<open>The completion listener\<close>

text \<open>
  Claim C6, as amended. \<^verbatim>\<open>onCompleteExit\<close> (line 63) registers the deferred callback as an
  ordinary listener: no \<^verbatim>\<open>once\<close> option and no guard. Registering does not call the
  callback; afterwards every dispatch of \<^verbatim>\<open>motioncomplete\<close> on the element calls it once
  more, so after \<open>n\<close> dispatches it has been called \<open>n\<close> times. The hypothesis says the
  callback was not registered on the element before, as for the fresh unmount and
  removal functions the adapter passes.
\<close>

theorem onCompleteExit_fires_every_time:
  assumes "\<forall>l \<in> set (listeners w).
             \<not> (fst l = e \<and> fst (snd l) = ''motioncomplete'' \<and> fst (snd (snd l)) = fn)"
  shows "invoked fn (onCompleteExit e fn w) = invoked fn w
       \<and> (e, ''motioncomplete'', fn, False) \<in> set (listeners (onCompleteExit e fn w))
       \<and> invoked fn ((dispatchEvent e ''motioncomplete'' ^^ n) (onCompleteExit e fn w))
           = invoked fn w + n"
proof -
  let ?P = "\<lambda>l. fst l = e \<and> fst (snd l) = ''motioncomplete'' \<and> fst (snd (snd l)) = fn"
  have ls: "listeners (onCompleteExit e fn w) = listeners w @ [(e, ''motioncomplete'', fn, False)]"
    using assms by (auto simp: onCompleteExit_def addEventListener_def)
  have "filter ?P (listeners w) = []"
    using assms by (simp add: filter_empty_conv)
  then have one: "filter ?P (listeners (onCompleteExit e fn w)) = [(e, ''motioncomplete'', fn, False)]"
    by (simp add: ls)
  have i0: "invoked fn (onCompleteExit e fn w) = invoked fn w"
    by (simp add: invoked_def count_list_append)
  from invoked_dispatch_funpow [OF one, of n] i0 ls show ?thesis
    by simp
qed

text \<open>Three dispatches in the empty world.\<close>

theorem onCompleteExit_fires_every_time_witness:
  "listeners world0 = []
   \<and> invoked (UnmountFn 1) (onCompleteExit 5 (UnmountFn 1) world0) = invoked (UnmountFn 1) world0
   \<and> (5, ''motioncomplete'', UnmountFn 1, False) \<in> set (listeners (onCompleteExit 5 (UnmountFn 1) world0))
   \<and> invoked (UnmountFn 1)
        ((dispatchEvent 5 ''motioncomplete'' ^^ 3) (onCompleteExit 5 (UnmountFn 1) world0))
       = invoked (UnmountFn 1) world0 + 3"
proof -
  have e: "listeners world0 = []"
    by (simp add: world0_def)
  then have h: "\<forall>l \<in> set (listeners world0).
             \<not> (fst l = 5 \<and> fst (snd l) = ''motioncomplete'' \<and> fst (snd (snd l)) = UnmountFn 1)"
    by simp
  show ?thesis
    by (rule conjI [OF e onCompleteExit_fires_every_time [OF h]])
qed

text \<open>
  The specification calls the listener one-shot. It is not: a \<open>Presence\<close> with the sample
  child is created and mounted,
  the child's binding is disposed (its exit is deferred), and \<^verbatim>\<open>motioncomplete\<close> is
  dispatched twice on the element. The deferred unmount procedure has then been called
  twice, not at most once.
\<close>

theorem onCompleteExit_fires_twice:
  "case run [Render \<lparr>presenceCtx = None, parentCtx = []\<rparr>
              (PresenceC [] [Motion (KStr ''div'') (Plain [(''exit'', JObj 1)]) 5 []]),
            RunMounts,
            Dispose \<lparr>b_el = 5, b_options = Fn (SplitFn (Merge (Plain [(''exit'', JObj 1)]) [(''tag'', JStr ''div'')])), b_presenceState = Some 0, b_state = 1\<rparr>,
            Dispatch 5 ''motioncomplete'', Dispatch 5 ''motioncomplete''] world0 of Inl err \<Rightarrow> False
       | Inr w \<Rightarrow> \<not> invoked (UnmountFn 1) w \<le> 1"
  by code_simp

section \<open>Transition mode and the entrance of the replacement\<close>

text \<open>
  Claim C7, on the code. The mode of the coordinator is that of line 44: out-in exactly
  when \<^verbatim>\<open>props.exitBeforeEnter\<close> is truthy. The mount callback of a binding (lines 70-71)
  however calls \<^verbatim>\<open>state.mount\<close> whatever the coordinator's state is: its trace is the
  mount of the element followed by the first update, the coordinator is untouched and
  no registered function is called. So when the host runs the pending mount callbacks,
  every binding waiting among them is mounted, also the replacement's while the
  coordinator is in out-in mode, still returns only the exiting child, and no
  \<^verbatim>\<open>motioncomplete\<close> was dispatched. The entrance of the replacement does not wait for the
  exit to complete, which the documentation of \<open>Presence\<close> (line 15) promises.
\<close>

theorem replacement_mount_not_gated:
  assumes fn: "b_options b = Fn p"
  shows "log (createAndBindMotionState_onMount b w) =
           log w @ [StateMount (b_state b) (b_el b), StateUpdate (b_state b) (call_producer w p)]
       \<and> coords (createAndBindMotionState_onMount b w) = coords w
       \<and> invoked fn' (createAndBindMotionState_onMount b w) = invoked fn' w
       \<and> (b \<in> set (onMounts w) \<longrightarrow>
            StateMount (b_state b) (b_el b) \<in> set (log (run_onMounts w))
            \<and> coords (run_onMounts w) = coords w
            \<and> invoked fn' (run_onMounts w) = invoked fn' w)
       \<and> (Presence_mode props = OutIn) = truthy (get_prop props ''exitBeforeEnter'')"
proof (intro conjI impI)
  show "log (createAndBindMotionState_onMount b w) =
           log w @ [StateMount (b_state b) (b_el b), StateUpdate (b_state b) (call_producer w p)]"
    by (rule onMount_Fn(1) [OF fn])
  show "coords (createAndBindMotionState_onMount b w) = coords w"
    by simp
  show "invoked fn' (createAndBindMotionState_onMount b w) = invoked fn' w"
    by simp
  show "(Presence_mode props = OutIn) = truthy (get_prop props ''exitBeforeEnter'')"
    by (simp add: Presence_mode_def)
next
  assume m: "b \<in> set (onMounts w)"
  have i: "invoked fn' (w\<lparr>onMounts := []\<rparr>) = invoked fn' w"
    by (simp add: invoked_def)
  show "StateMount (b_state b) (b_el b) \<in> set (log (run_onMounts w))"
    unfolding run_onMounts_def by (rule fold_onMount_mounts [OF m])
  show "coords (run_onMounts w) = coords w"
    by (simp add: run_onMounts_def)
  show "invoked fn' (run_onMounts w) = invoked fn' w"
    by (simp add: run_onMounts_def i)
qed

text \<open>The world in which the child of an out-in \<open>Presence\<close> is being replaced: the exit of
  element 5 is pending, its removal function was never called, and running the pending
  mount callbacks mounts the replacement, element 6.\<close>

theorem replacement_mount_not_gated_witness:
  "b_options replacement_binding =
     Fn (SplitFn (Merge (Plain [(''initial'', JObj 2)]) [(''tag'', JStr ''div'')]))
   \<and> c_mode (coords swap_world 2) = OutIn
   \<and> c_exiting (coords swap_world 2)
   \<and> c_returned (coords swap_world 2) = [5]
   \<and> c_next (coords swap_world 2) = Some 6
   \<and> invoked (RemoveFn 2 5) swap_world = 0
   \<and> replacement_binding \<in> set (onMounts swap_world)
   \<and> StateMount (b_state replacement_binding) (b_el replacement_binding)
        \<in> set (log (run_onMounts swap_world))
   \<and> coords (run_onMounts swap_world) = coords swap_world
   \<and> invoked (RemoveFn 2 5) (run_onMounts swap_world) = invoked (RemoveFn 2 5) swap_world"
proof -
  have fn: "b_options replacement_binding =
     Fn (SplitFn (Merge (Plain [(''initial'', JObj 2)]) [(''tag'', JStr ''div'')]))"
    by (simp add: replacement_binding_def)
  have m: "replacement_binding \<in> set (onMounts swap_world)"
    by (simp add: swap_world_facts)
  note t = replacement_mount_not_gated [OF fn, of swap_world "RemoveFn 2 5",
      THEN conjunct2, THEN conjunct2, THEN conjunct2, THEN conjunct1, rule_format, OF m]
  show ?thesis
    by (intro conjI fn m swap_world_facts(1) swap_world_facts(2) swap_world_facts(3)
          swap_world_facts(4) swap_world_facts(5) t [THEN conjunct1]
          t [THEN conjunct2, THEN conjunct1] t [THEN conjunct2, THEN conjunct2])
qed

text \<open>The whole trace of that replacement: \<^verbatim>\<open>mount\<close> is called for element 6 and no
  \<^verbatim>\<open>motioncomplete\<close> was dispatched.\<close>

lemma replacement_mount_example:
  "case run [Render \<lparr>presenceCtx = None, parentCtx = []\<rparr>
                  (PresenceC [(''exitBeforeEnter'', JBool True)] [sample_child]),
             RunMounts,
             Render \<lparr>presenceCtx = Some 0, parentCtx = [None]\<rparr>
                  (Motion (KStr ''div'') (Plain [(''initial'', JObj 2)]) 6 []),
             Dispose \<lparr>b_el = 5,
                      b_options = Fn (SplitFn (Merge (Plain [(''initial'', JObj 2), (''exit'', JObj 1)])
                                                 [(''tag'', JStr ''div'')])),
                      b_presenceState = Some 0, b_state = 1\<rparr>,
             SourceChanged 2 (Some 6),
             RunMounts] world0 of
     Inl err \<Rightarrow> False
   | Inr w \<Rightarrow>
       log w =
         [CreateMotionState 1 [(''initial'', JObj 2), (''exit'', JObj 1)] None,
          StateMount 1 5, StateUpdate 1 [(''initial'', JObj 2), (''exit'', JObj 1)],
          CreateMotionState 3 [(''initial'', JObj 2)] None,
          SetActive 1 ''exit'' True,
          AddEventListener 5 ''motioncomplete'' (UnmountFn 1),
          AddEventListener 5 ''motioncomplete'' (RemoveFn 2 5),
          StateMount 3 6, StateUpdate 3 [(''initial'', JObj 2)]]
       \<and> c_returned (coords w 2) = [5] \<and> c_next (coords w 2) = Some 6
       \<and> c_exiting (coords w 2)"
  by code_simp

text \<open>
  What the coordinator itself does with the two modes, for a coordinator whose only
  returned child \<open>a\<close> is mounted with an exit target, and a replacement \<open>b\<close>: in out-in
  mode it still returns only \<open>a\<close> after the change and returns \<open>b\<close> (and no longer \<open>a\<close>)
  once \<^verbatim>\<open>motioncomplete\<close> was dispatched on \<open>a\<close>; in parallel mode it returns \<open>b\<close> together
  with \<open>a\<close> at once, and \<open>a\<close> leaves on \<^verbatim>\<open>motioncomplete\<close>. This is the modelled contract of
  \<^verbatim>\<open>createSwitchTransition\<close>, with the mode and the exit handler of the source.
\<close>

lemma coordinator_sequencing:
  assumes mode: "c_mode (coords w k) = Presence_mode props"
    and cur: "c_current (coords w k) = Some a" "c_returned (coords w k) = [a]"
      "c_next (coords w k) = None" "\<not> c_exiting (coords w k)"
    and mounted: "mountedStates w a = Some h" "truthy (get_prop (state_getOptions w h) ''exit'')"
    and ne: "b \<noteq> a"
    and only: "\<forall>l \<in> set (listeners w). fst l = a \<longrightarrow> (\<exists>h'. fst (snd (snd l)) = UnmountFn h')"
  shows "(truthy (get_prop props ''exitBeforeEnter'') \<longrightarrow>
           c_mode (coords w k) = OutIn
           \<and> c_returned (coords (source_changed k (Some b) w) k) = [a]
           \<and> c_returned (coords (dispatchEvent a ''motioncomplete''
                                   (source_changed k (Some b) w)) k) = [b])
       \<and> (\<not> truthy (get_prop props ''exitBeforeEnter'') \<longrightarrow>
           c_mode (coords w k) = Parallel
           \<and> c_returned (coords (source_changed k (Some b) w) k) = [b, a]
           \<and> c_returned (coords (dispatchEvent a ''motioncomplete''
                                   (source_changed k (Some b) w)) k) = [b])"
proof -
  let ?c1 = "(coords w k)\<lparr>c_current := Some b, c_next := Some b\<rparr>"
  let ?w1 = "w\<lparr>coords := (coords w)(k := ?c1)\<rparr>"
  let ?w2 = "?w1\<lparr>coords := (coords ?w1)(k := (coords ?w1 k)\<lparr>c_exiting := True\<rparr>)\<rparr>"
  have ex: "exitTransition k (Some a) ?w1 = onCompleteExit a (RemoveFn k a) ?w2"
    using mounted by (simp add: exitTransition_def onExit_def state_getOptions_def)
  have only2: "\<forall>l \<in> set (listeners ?w2). fst l = a \<longrightarrow> (\<exists>h'. fst (snd (snd l)) = UnmountFn h')"
    using only by simp
  have only3: "\<forall>l \<in> set (listeners (enterTransition k' ?w2)). fst l = a \<longrightarrow> (\<exists>h'. fst (snd (snd l)) = UnmountFn h')"
    for k'
    using only by simp
  show ?thesis
  proof (intro conjI impI)
    assume t: "truthy (get_prop props ''exitBeforeEnter'')"
    then show m: "c_mode (coords w k) = OutIn"
      using mode by (simp add: Presence_mode_def)
    have sc: "source_changed k (Some b) w = onCompleteExit a (RemoveFn k a) ?w2"
      using m cur ne ex by (simp add: source_changed_def Let_def)
    show "c_returned (coords (source_changed k (Some b) w) k) = [a]"
      by (simp add: sc cur)
    have sc': "source_changed k (Some b) w =
                 addEventListener a ''motioncomplete'' (RemoveFn k a) False ?w2"
      using sc by (simp only: onCompleteExit_def)
    have "coords (dispatchEvent a ''motioncomplete'' (source_changed k (Some b) w)) =
            coords (remove_child k a ?w2)"
      unfolding sc' by (rule dispatch_removal [OF only2])
    then show "c_returned (coords (dispatchEvent a ''motioncomplete''
                                   (source_changed k (Some b) w)) k) = [b]"
      using m cur by (simp add: remove_child_def enterTransition_def Let_def)
  next
    assume t: "\<not> truthy (get_prop props ''exitBeforeEnter'')"
    then show m: "c_mode (coords w k) = Parallel"
      using mode by (simp add: Presence_mode_def)
    have sc: "source_changed k (Some b) w =
                enterTransition k (onCompleteExit a (RemoveFn k a) ?w2)"
      using m cur ne ex by (simp add: source_changed_def Let_def)
    show r: "c_returned (coords (source_changed k (Some b) w) k) = [b, a]"
      by (simp add: sc cur enterTransition_def Let_def)
    let ?w3 = "?w2\<lparr>coords := (coords ?w2)(k := (coords ?w2 k)\<lparr>c_next := None,
                    c_returned := b # c_returned (coords ?w2 k)\<rparr>)\<rparr>"
    have sw: "enterTransition k (onCompleteExit a (RemoveFn k a) ?w2) =
                onCompleteExit a (RemoveFn k a) ?w3"
      by (simp add: enterTransition_def Let_def onCompleteExit_def addEventListener_def emit_def)
    have only4: "\<forall>l \<in> set (listeners ?w3). fst l = a \<longrightarrow> (\<exists>h'. fst (snd (snd l)) = UnmountFn h')"
      using only by simp
    have "source_changed k (Some b) w = onCompleteExit a (RemoveFn k a) ?w3"
      by (simp only: sc sw)
    then have sc': "source_changed k (Some b) w =
                      addEventListener a ''motioncomplete'' (RemoveFn k a) False ?w3"
      by (simp only: onCompleteExit_def)
    have "coords (dispatchEvent a ''motioncomplete'' (source_changed k (Some b) w)) =
            coords (remove_child k a ?w3)"
      unfolding sc' by (rule dispatch_removal [OF only4])
    then show "c_returned (coords (dispatchEvent a ''motioncomplete''
                                   (source_changed k (Some b) w)) k) = [b]"
      using m cur ne by (simp add: remove_child_def Let_def)
  qed
qed

text \<open>The sample world, once with \<^verbatim>\<open>exitBeforeEnter\<close> and once without, replacing
  element 5 by element 6.\<close>

lemma coordinator_sequencing_example:
  "truthy (get_prop [(''exitBeforeEnter'', JBool True)] ''exitBeforeEnter'')
   \<and> mountedStates (sample_world [(''exitBeforeEnter'', JBool True)]) 5 = Some 1
   \<and> c_mode (coords (sample_world [(''exitBeforeEnter'', JBool True)]) 2) = OutIn
   \<and> c_returned (coords (source_changed 2 (Some 6)
          (sample_world [(''exitBeforeEnter'', JBool True)])) 2) = [5]
   \<and> c_returned (coords (dispatchEvent 5 ''motioncomplete'' (source_changed 2 (Some 6)
          (sample_world [(''exitBeforeEnter'', JBool True)]))) 2) = [6]
   \<and> \<not> truthy (get_prop [] ''exitBeforeEnter'')
   \<and> c_mode (coords (sample_world []) 2) = Parallel
   \<and> c_returned (coords (source_changed 2 (Some 6) (sample_world [])) 2) = [6, 5]
   \<and> c_returned (coords (dispatchEvent 5 ''motioncomplete''
          (source_changed 2 (Some 6) (sample_world []))) 2) = [6]"
proof -
  have t: "truthy (get_prop [(''exitBeforeEnter'', JBool True)] ''exitBeforeEnter'')"
    and f: "\<not> truthy (get_prop [] ''exitBeforeEnter'')"
    by (simp_all add: get_prop_def)
  have ex: "truthy (get_prop (state_getOptions (sample_world props) 1) ''exit'')" for props
    unfolding sample_world_facts by (simp add: get_prop_def)
  have only: "\<forall>l \<in> set (listeners (sample_world props)).
                fst l = 5 \<longrightarrow> (\<exists>h'. fst (snd (snd l)) = UnmountFn h')" for props
    by (simp add: sample_world_facts)
  have ne: "(6::nat) \<noteq> 5" by simp
  note th = coordinator_sequencing [OF sample_world_facts(4) sample_world_facts(5)
      sample_world_facts(6) sample_world_facts(7) sample_world_facts(8) sample_world_facts(1)
      ex ne only]
  note o = th [of "[(''exitBeforeEnter'', JBool True)]", THEN conjunct1, rule_format, OF t]
  note p = th [of "[]", THEN conjunct2, rule_format, OF f]
  show ?thesis
    by (intro conjI t f sample_world_facts(1) o [THEN conjunct1] o [THEN conjunct2, THEN conjunct1]
          o [THEN conjunct2, THEN conjunct2] p [THEN conjunct1] p [THEN conjunct2, THEN conjunct1]
          p [THEN conjunct2, THEN conjunct2])
qed

section \<open>Defaults of the Presence props\<close>

text \<open>
  Claim C8. When the \<^verbatim>\<open>initial\<close> prop is absent the flag starts as \<^verbatim>\<open>true\<close>; it starts as
  \<^verbatim>\<open>false\<close> exactly when the prop is the boolean \<^verbatim>\<open>false\<close>. When the \<^verbatim>\<open>exitBeforeEnter\<close> prop
  is absent the mode is parallel. Creating a \<open>Presence\<close> always succeeds and sets up its
  coordinator with \<^verbatim>\<open>appear\<close> equal to that initial flag and with that mode.
\<close>

theorem Presence_defaults:
  "(map_of props ''initial'' = None \<longrightarrow> Presence_initial props)
   \<and> (Presence_initial props = False \<longleftrightarrow> get_prop props ''initial'' = JBool False)
   \<and> (map_of props ''exitBeforeEnter'' = None \<longrightarrow> Presence_mode props = Parallel)
   \<and> (\<exists>w'. render ev (PresenceC props kids) w = Inr w'
         \<and> c_appear (coords w' (next_id w' - 1)) = Presence_initial props
         \<and> c_mode (coords w' (next_id w' - 1)) = Presence_mode props)"
proof (intro conjI impI)
  assume "map_of props ''initial'' = None"
  then show "Presence_initial props"
    by (simp add: Presence_initial_def get_prop_absent)
next
  show "Presence_initial props = False \<longleftrightarrow> get_prop props ''initial'' = JBool False"
    by (simp add: Presence_initial_def)
next
  assume "map_of props ''exitBeforeEnter'' = None"
  then show "Presence_mode props = Parallel"
    by (simp add: Presence_mode_def get_prop_absent)
next
  let ?w1 = "w\<lparr>vars := (vars w)(next_id w := JBool (Presence_initial props)),
                next_id := Suc (next_id w)\<rparr>"
  let ?ev = "(ev\<lparr>presenceCtx := Some (next_id w), parentCtx := None # parentCtx ev\<rparr>)"
  obtain w2 where r: "render_list ?ev kids ?w1 = Inr w2"
    using render_total(2) [of ?ev kids ?w1] by blast
  from render_frame(2) [OF r] have v: "vars w2 (next_id w) = JBool (Presence_initial props)"
    by simp
  let ?w' = "(snd (createSwitchTransition (resolveFirst kids)
                      (truthy (vars w2 (next_id w))) (Presence_mode props) w2))
                 \<lparr>vars := (vars (snd (createSwitchTransition (resolveFirst kids)
                      (truthy (vars w2 (next_id w))) (Presence_mode props) w2)))(next_id w := JBool True)\<rparr>"
  have e: "render ev (PresenceC props kids) w = Inr ?w'"
    using r by (simp add: Let_def split_beta)
  have "c_appear (coords ?w' (next_id ?w' - 1)) = Presence_initial props
         \<and> c_mode (coords ?w' (next_id ?w' - 1)) = Presence_mode props"
    by (simp add: createSwitchTransition_def Let_def v)
  with e show "\<exists>w'. render ev (PresenceC props kids) w = Inr w'
         \<and> c_appear (coords w' (next_id w' - 1)) = Presence_initial props
         \<and> c_mode (coords w' (next_id w' - 1)) = Presence_mode props"
    by blast
qed

text \<open>Empty props, \<^verbatim>\<open>initial={false}\<close> and at \<^verbatim>\<open>initial={0}\<close>.\<close>

theorem Presence_defaults_witness:
  "map_of ([] :: obj) ''initial'' = None \<and> Presence_initial []
   \<and> map_of ([] :: obj) ''exitBeforeEnter'' = None \<and> Presence_mode [] = Parallel
   \<and> Presence_initial [(''initial'', JBool False)] = False
   \<and> Presence_initial [(''initial'', JNum 0)]"
proof -
  have a: "map_of ([] :: obj) ''initial'' = None" "map_of ([] :: obj) ''exitBeforeEnter'' = None"
    by simp_all
  have b: "get_prop [(''initial'', JBool False)] ''initial'' = JBool False"
    "get_prop [(''initial'', JNum 0)] ''initial'' \<noteq> JBool False"
    by (simp_all add: get_prop_def)
  have c: "Presence_initial [(''initial'', JBool False)] = False"
    using Presence_defaults [of "[(''initial'', JBool False)]", THEN conjunct2, THEN conjunct1] b(1)
    by simp
  have d: "Presence_initial [(''initial'', JNum 0)]"
    using Presence_defaults [of "[(''initial'', JNum 0)]", THEN conjunct2, THEN conjunct1] b(2)
    by simp
  show ?thesis
    by (intro conjI a c d Presence_defaults [of "[]", THEN conjunct1, rule_format, OF a(1)]
          Presence_defaults [of "[]", THEN conjunct2, THEN conjunct2, THEN conjunct1, rule_format, OF a(2)])
qed

section \<open>The tag of a Motion component\<close>

text \<open>
  Claim C9. \<^verbatim>\<open>Motion[tag]\<close> applied to props is \<open>MotionComponent\<close> on the props merged with
  \<^verbatim>\<open>{ tag }\<close>; the \<^verbatim>\<open>tag\<close> that component reads is the accessed key, whatever the props
  said. What a \<open>MotionComponent\<close> renders is \<^verbatim>\<open>props.tag || "div"\<close>: its \<^verbatim>\<open>tag\<close> when that is
  truthy, a \<^verbatim>\<open>"div"\<close> when the props carry no tag or a falsy one (which includes the key
  that is the empty string).
\<close>

theorem Motion_proxy_tag:
  "Motion tag props root kids = MotionC (Merge props [(''tag'', key_val tag)]) root kids
   \<and> render ev (Motion tag props root kids) w =
       render ev (MotionC (Merge props [(''tag'', key_val tag)]) root kids) w
   \<and> get_prop (read_props w (Merge props [(''tag'', key_val tag)])) ''tag'' = key_val tag
   \<and> MotionComponent_component w (Merge props [(''tag'', key_val tag)]) =
       (if tag = KStr [] then JStr ''div'' else key_val tag)
   \<and> MotionComponent_component w p =
       (if truthy (get_prop (read_props w p) ''tag'') then get_prop (read_props w p) ''tag''
        else JStr ''div'')"
proof -
  have t: "get_prop (read_props w (Merge props [(''tag'', key_val tag)])) ''tag'' = key_val tag"
    by (simp add: get_prop_mergeProps_single key_val_defined)
  have c: "MotionComponent_component w (Merge props [(''tag'', key_val tag)]) =
       (if tag = KStr [] then JStr ''div'' else key_val tag)"
    unfolding MotionComponent_component_def t js_or_def truthy_key_val by simp
  show ?thesis
    using t c by (simp add: Motion_def MotionComponent_component_def js_or_def)
qed

text \<open>\<^verbatim>\<open>Motion.span\<close>, the empty key, and props without a tag.\<close>

theorem Motion_proxy_tag_witness:
  "MotionComponent_component world0 (Merge (Plain [(''animate'', JObj 1)]) [(''tag'', key_val (KStr ''span''))])
     = JStr ''span''
   \<and> MotionComponent_component world0 (Merge (Plain []) [(''tag'', key_val (KStr []))]) = JStr ''div''
   \<and> MotionComponent_component world0 (Plain [(''animate'', JObj 1)]) = JStr ''div''"
  using Motion_proxy_tag [where tag = "KStr ''span''" and props = "Plain [(''animate'', JObj 1)]"
      and w = world0 and p = "Plain [(''animate'', JObj 1)]"]
    Motion_proxy_tag [where tag = "KStr []" and props = "Plain []" and w = world0
      and p = "Plain [(''animate'', JObj 1)]"]
  by (simp add: get_prop_def)

section \<open>Parent scope handles\<close>




text \<open>The same tree in a runtime where the innermost provider decides.\<close>

lemma Presence_reset_example:
  "case render \<lparr>presenceCtx = None, parentCtx = []\<rparr>
          (MotionC (Plain []) 5 [PresenceC [] [MotionC (Plain []) 6 []]]) world0 of
     Inl err \<Rightarrow> False
   | Inr w \<Rightarrow>
       log w = [CreateMotionState 0 [] None, CreateMotionState 2 [] None]
       \<and> h_parent (handles w 2) = None"
  by code_simp

end
